theory Spec2Isabelle
  imports Complex_Main
begin

section \<open>Synthetic airline dataset generator (analysis/01\_create\_data.py)\<close>

text \<open>
  The script draws three tables (flights, customers, bookings) from numpy's global
  random generator and writes them as CSV files. The embedding follows the script:
  each loop body is a function that threads the generator state through the draws in
  the order the script makes them, each loop is a fold over \<open>range(n)\<close> that appends
  one row per iteration, and the module-level variables are one state record that the
  phases of the script transform in sequence.

  A Python float or numpy \<open>float64\<close> is represented by the real number it denotes.
  Floating-point arithmetic is not exact: each multiplication and each rounding to
  decimals ends with the rounding of an exact result to the nearest double, which is a
  parameter of the platform (see \<open>rounding\<close> below), as are the random draws. Comparisons
  and \<open>max\<close> are exact on doubles. Python integers are \<open>int\<close>, counts and loop indices
  \<open>nat\<close>.
\<close>

subsection \<open>Python built-ins used by the script\<close>

text \<open>
  \<open>datetime(y, m, d)\<close> at midnight, represented by its proleptic Gregorian ordinal
  (\<open>date.toordinal()\<close>), computed as CPython's \<open>_ymd2ord\<close> does. Adding or
  subtracting \<open>timedelta(days=k)\<close> is integer addition or subtraction on ordinals.
\<close>

type_synonym datetime = int

definition is_leap :: "int \<Rightarrow> bool" where
  "is_leap year = (year mod 4 = 0 \<and> (year mod 100 \<noteq> 0 \<or> year mod 400 = 0))"

definition days_before_year :: "int \<Rightarrow> int" where
  "days_before_year year =
     (let y = year - 1 in y * 365 + y div 4 - y div 100 + y div 400)"

definition days_in_month :: "int \<Rightarrow> nat \<Rightarrow> int" where
  "days_in_month year month =
     (if month = 2 \<and> is_leap year then 29
      else [31, 28, 31, 30, 31, 30, 31, 31, 30, 31, 30, 31] ! (month - 1))"

definition days_before_month :: "int \<Rightarrow> nat \<Rightarrow> int" where
  "days_before_month year month = (\<Sum>m \<leftarrow> [1..<month]. days_in_month year m)"

definition datetime :: "int \<Rightarrow> nat \<Rightarrow> int \<Rightarrow> datetime" where
  "datetime year month day = days_before_year year + days_before_month year month + day"

text \<open>
  Rounding the exact value \<open>x\<close> to \<open>ndigits\<close> decimals: the nearest multiple of
  \<open>10 ^ -ndigits\<close>, a tie going to the even neighbour. For \<open>ndigits = 0\<close> this is what
  \<open>round(x, 0)\<close> returns for a float \<open>x\<close> (the result is an integer-valued double, so no
  further rounding takes place).
\<close>

definition round_half_even :: "real \<Rightarrow> int" where
  "round_half_even x =
     (let f = \<lfloor>x\<rfloor>; d = x - of_int f
      in if d < 1 / 2 then f else if 1 / 2 < d then f + 1 else if even f then f else f + 1)"

definition py_round :: "real \<Rightarrow> nat \<Rightarrow> real" where
  "py_round x ndigits = of_int (round_half_even (x * 10 ^ ndigits)) / 10 ^ ndigits"

text \<open>
  The format specification \<open>{n:0wd}\<close> of an f-string, for \<open>n \<ge> 0\<close>: the decimal digits
  of \<open>n\<close>, padded on the left with zeros to at least \<open>w\<close> characters.
\<close>

definition digit_char :: "nat \<Rightarrow> char" where
  "digit_char d = ''0123456789'' ! d"

fun str_nat :: "nat \<Rightarrow> string" where
  "str_nat n = (if n < 10 then [digit_char n] else str_nat (n div 10) @ [digit_char (n mod 10)])"

declare str_nat.simps [simp del]

definition fmt_0d :: "nat \<Rightarrow> nat \<Rightarrow> string" where
  "fmt_0d w n = replicate (w - length (str_nat n)) (CHR ''0'') @ str_nat n"

text \<open>The inverse reading of a decimal string, used to state that identifiers are dense.\<close>

definition digit_val :: "char \<Rightarrow> nat" where
  "digit_val c = of_char c - 48"

definition int_of_str :: "string \<Rightarrow> nat" where
  "int_of_str s = foldl (\<lambda>a c. 10 * a + digit_val c) 0 s"

text \<open>
  "\<open>k\<close> zero-padded to \<open>w\<close> digits", as the specification words it: a string of
  exactly \<open>w\<close> decimal digits whose value is \<open>k\<close>.
\<close>

definition zero_padded :: "nat \<Rightarrow> nat \<Rightarrow> string \<Rightarrow> bool" where
  "zero_padded w k s \<longleftrightarrow> length s = w \<and> set s \<subseteq> set ''0123456789'' \<and> int_of_str s = k"

subsection \<open>The tables\<close>

record flight =
  flight_id :: string
  route :: string
  date :: datetime
  aircraft :: string
  capacity :: int
  base_price :: real

record customer =
  customer_id :: string
  age :: int
  income :: real
  is_business :: int
  home_city :: string

record booking =
  booking_id :: string
  flight_id :: string
  customer_id :: string
  booking_date :: datetime
  price_paid :: real
  advance_days :: int
  passengers :: int

subsection \<open>numpy and pandas, as far as the script calls them\<close>

text \<open>
  The random generator and the CSV writer are library code outside the repository. They
  are parameters of the model: a generator state of any type \<open>'g\<close> and the entry points
  the script reaches, each returning its draw and the next state.
  \<^item> \<open>seed n\<close>: the state \<open>np.random.seed(n)\<close> installs; it depends on \<open>n\<close> alone.
  \<^item> \<open>randint low high\<close>: \<open>np.random.randint(low, high)\<close>.
  \<^item> \<open>random_sample\<close>: the uniform draw on the unit interval behind
    \<open>choice(..., p=...)\<close>.
  \<^item> \<open>normal loc scale\<close>: the double \<open>np.random.normal(loc, scale)\<close> returns.
  \<^item> \<open>uniform low high\<close>: the double \<open>np.random.uniform(low, high)\<close> returns.
  \<^item> \<open>sample_index n\<close>: the position of the row that \<open>DataFrame.sample(1)\<close> returns
    from a frame of \<open>n\<close> rows (it draws from the same global generator).
  \<^item> \<open>flights_csv\<close>, \<open>customers_csv\<close>, \<open>bookings_csv\<close>: the text \<open>to_csv\<close> writes.
  \<^item> \<open>fpu\<close>: the rounding of an exact real result to the nearest double.

  Of the rounding to the nearest double only two facts are used: it is monotone, and it
  leaves an integer of magnitude at most \<open>2 ^ 53\<close> unchanged (such an integer is a
  double). Both hold of IEEE 754 round-to-nearest. Results are taken to stay in the
  finite range of doubles: the products of the script overflow only for a Gaussian draw
  beyond \<open>10 ^ 300\<close>, which no sampler returns.
\<close>

typedef rounding =
  "{f :: real \<Rightarrow> real. mono f \<and> (\<forall>k :: int. \<bar>k\<bar> \<le> 2 ^ 53 \<longrightarrow> f (of_int k) = of_int k)}"
  morphisms nearest Rounding
  by (rule exI [of _ "\<lambda>x. x"]) (simp add: mono_def)

setup_lifting type_definition_rounding

text \<open>Exact arithmetic: every real counts as a double. Used by the scripted generators.\<close>

lift_definition exact :: rounding is "\<lambda>x. x"
  by (simp add: mono_def)

record 'g platform =
  seed :: "nat \<Rightarrow> 'g"
  randint :: "int \<Rightarrow> int \<Rightarrow> 'g \<Rightarrow> int \<times> 'g"
  random_sample :: "'g \<Rightarrow> real \<times> 'g"
  normal :: "real \<Rightarrow> real \<Rightarrow> 'g \<Rightarrow> real \<times> 'g"
  uniform :: "real \<Rightarrow> real \<Rightarrow> 'g \<Rightarrow> real \<times> 'g"
  sample_index :: "nat \<Rightarrow> 'g \<Rightarrow> nat \<times> 'g"
  flights_csv :: "flight list \<Rightarrow> string"
  customers_csv :: "customer list \<Rightarrow> string"
  bookings_csv :: "booking list \<Rightarrow> string"
  fpu :: rounding

text \<open>
  The documented ranges of the draws: \<open>randint\<close> returns an integer in the half-open
  interval from \<open>low\<close> to \<open>high\<close>, \<open>random_sample\<close> a float in the half-open unit
  interval, \<open>sample\<close> a row of the frame. The Gaussian draw is any real.
\<close>

definition rng_ok :: "'g platform \<Rightarrow> bool" where
  "rng_ok P \<longleftrightarrow>
     (\<forall>low high g. low < high \<longrightarrow> low \<le> fst (randint P low high g) \<and> fst (randint P low high g) < high) \<and>
     (\<forall>g. 0 \<le> fst (random_sample P g) \<and> fst (random_sample P g) < 1) \<and>
     (\<forall>n g. 0 < n \<longrightarrow> fst (sample_index P n g) < n)"

text \<open>
  The documented range of \<open>uniform\<close>: a float from \<open>low\<close> to \<open>high\<close> (the upper end
  can be reached through rounding).
\<close>

definition uniform_ok :: "'g platform \<Rightarrow> bool" where
  "uniform_ok P \<longleftrightarrow>
     (\<forall>low high g. low \<le> high \<longrightarrow>
        low \<le> fst (uniform P low high g) \<and> fst (uniform P low high g) \<le> high)"

text \<open>
  \<open>np.random.choice(a)\<close> without weights indexes \<open>a\<close> by \<open>randint(0, len(a))\<close>. The script
  calls it on literal, non-empty lists only.
\<close>

definition np_choice :: "'g platform \<Rightarrow> 'a list \<Rightarrow> 'g \<Rightarrow> 'a \<times> 'g" where
  "np_choice P a g = (let (k, g') = randint P 0 (int (length a)) g in (a ! nat k, g'))"

text \<open>
  \<open>np.random.choice(a, p=p)\<close>: one unit draw \<open>u\<close>, located in the cumulative sums of
  \<open>p\<close> by \<open>searchsorted(cdf, u, side='right')\<close>, the number of entries that are at most \<open>u\<close>.
  The sums are taken exactly. For the three weight lists of the script this places every
  double \<open>u\<close> as numpy does: each threshold numpy computes (0.4, 0.8, and
  0.7000000000000001, 0.9 for the passengers) is the least double that is not below the
  exact sum, and the last one is 1.0.
\<close>

fun cumsum :: "real \<Rightarrow> real list \<Rightarrow> real list" where
  "cumsum acc [] = []"
| "cumsum acc (x # xs) = (acc + x) # cumsum (acc + x) xs"

definition searchsorted_right :: "real list \<Rightarrow> real \<Rightarrow> nat" where
  "searchsorted_right cdf u = length (takeWhile (\<lambda>c. c \<le> u) cdf)"

definition np_choice_p :: "'g platform \<Rightarrow> 'a list \<Rightarrow> real list \<Rightarrow> 'g \<Rightarrow> 'a \<times> 'g" where
  "np_choice_p P a p g =
     (let (u, g') = random_sample P g in (a ! searchsorted_right (cumsum 0 p) u, g'))"

text \<open>
  Floating-point operations of the script. \<open>dbl P x\<close> is the double nearest to the exact
  value \<open>x\<close>; a decimal literal such as \<open>1.3\<close> denotes \<open>dbl P 1.3\<close>; the product of two
  doubles is the double nearest to their exact product.
\<close>

definition dbl :: "'g platform \<Rightarrow> real \<Rightarrow> real" where
  "dbl P x = nearest (fpu P) x"

definition fmul :: "'g platform \<Rightarrow> real \<Rightarrow> real \<Rightarrow> real" where
  "fmul P a b = dbl P (a * b)"

text \<open>
  \<open>round(x, ndigits)\<close> on a Python float (the flights' \<open>base_price\<close>, line 58): the exact
  value is rounded to \<open>ndigits\<close> decimals, ties to even, and the decimal result is
  converted to the nearest double.
\<close>

definition float_round :: "'g platform \<Rightarrow> real \<Rightarrow> nat \<Rightarrow> real" where
  "float_round P x ndigits = dbl P (py_round x ndigits)"

text \<open>
  \<open>round(x, ndigits)\<close> on a \<open>numpy.float64\<close> (the bookings' price, line 142, which starts
  from a value read out of the data frame): numpy multiplies by \<open>10 ^ ndigits\<close>, rounds
  to the nearest integer with \<open>rint\<close> (ties to even, exact) and divides by
  \<open>10 ^ ndigits\<close>; the multiplication and the division are floating-point operations.
\<close>

definition np_round :: "'g platform \<Rightarrow> real \<Rightarrow> nat \<Rightarrow> real" where
  "np_round P x ndigits =
     dbl P (of_int (round_half_even (dbl P (x * 10 ^ ndigits))) / 10 ^ ndigits)"

text \<open>
  \<open>df.sample(1).iloc[0]\<close>: one row of the frame. pandas raises \<open>ValueError\<close> when the
  frame has no row to sample.
\<close>

datatype error = ValueError

definition df_sample1 :: "'g platform \<Rightarrow> 'a list \<Rightarrow> 'g \<Rightarrow> error + 'a \<times> 'g" where
  "df_sample1 P df g =
     (if df = [] then Inl ValueError
      else (let (k, g') = sample_index P (length df) g in Inr (df ! k, g')))"

subsection \<open>Building a table: \<open>rows = []; for i in range(n): ...; rows.append(row)\<close>\<close>

text \<open>
  All three tables are built by the same loop. The body computes one row from the loop
  index and the generator state; an exception raised by the body ends the loop.
\<close>

fun append_row ::
  "(nat \<Rightarrow> 'g \<Rightarrow> error + 'r \<times> 'g) \<Rightarrow> error + 'r list \<times> 'g \<Rightarrow> nat \<Rightarrow> error + 'r list \<times> 'g" where
  "append_row body (Inl e) i = Inl e"
| "append_row body (Inr (rows, g)) i =
     (case body i g of Inl e \<Rightarrow> Inl e | Inr (row, g') \<Rightarrow> Inr (rows @ [row], g'))"

definition for_range :: "nat \<Rightarrow> (nat \<Rightarrow> 'g \<Rightarrow> error + 'r \<times> 'g) \<Rightarrow> 'g \<Rightarrow> error + 'r list \<times> 'g" where
  "for_range n body g = foldl (append_row body) (Inr ([], g)) [0..<n]"

subsection \<open>Flights (lines 20 to 64)\<close>

definition routes :: "string list" where
  "routes = [''NYC-LAX'', ''NYC-CHI'', ''LAX-SF'', ''CHI-MIA'', ''NYC-BOS'']"

text \<open>The list the script names \<open>aircraft\<close>; the column of that name is the record field.\<close>

definition aircraft_types :: "string list" where
  "aircraft_types = [''A320'', ''B737'', ''A321'']"

definition capacities :: "int list" where
  "capacities = [150, 180, 220]"

definition n_flights :: nat where
  "n_flights = 50000"

definition flight_body :: "'g platform \<Rightarrow> nat \<Rightarrow> 'g \<Rightarrow> flight \<times> 'g" where
  "flight_body P i g0 =
     (let (route', g1) = np_choice P routes g0;
          (plane, g2) = np_choice P aircraft_types g1;
          (capacity', g3) = np_choice P capacities g2;
          (days_from_start, g4) = randint P 0 365 g3;
          flight_date = datetime 2023 1 1 + days_from_start;
          (price, g5) =
            (if route' = ''NYC-LAX'' then normal P 400 50 g4
             else if route' = ''NYC-CHI'' then normal P 300 40 g4
             else normal P 250 30 g4);
          price = max price 100
      in (\<lparr>flight.flight_id = ''FL'' @ fmt_0d 5 (i + 1),
           route = route',
           date = flight_date,
           aircraft = plane,
           capacity = capacity',
           base_price = float_round P price 2\<rparr>, g5))"

subsection \<open>Customers (lines 70 to 98)\<close>

definition n_customers :: nat where
  "n_customers = 15000"

definition home_cities :: "string list" where
  "home_cities = [''NYC'', ''LAX'', ''CHI'', ''MIA'', ''BOS'']"

definition customer_body :: "'g platform \<Rightarrow> nat \<Rightarrow> 'g \<Rightarrow> customer \<times> 'g" where
  "customer_body P i g0 =
     (let (age', g1) = randint P 18 70 g0;
          (draw, g2) = normal P 60000 20000 g1;
          income' = max draw 25000;
          (business, g3) =
            (if income' > 80000 \<and> age' > 30 then np_choice_p P [0, 1] [0.4, 0.6] g2
             else np_choice_p P [0, 1] [0.8, 0.2] g2);
          (city, g4) = np_choice P home_cities g3
      in (\<lparr>customer.customer_id = ''CU'' @ fmt_0d 5 (i + 1),
           age = age',
           income = py_round income' 0,
           is_business = business,
           home_city = city\<rparr>, g4))"

subsection \<open>Bookings (lines 104 to 149)\<close>

definition n_bookings :: nat where
  "n_bookings = 150000"

definition booking_body ::
  "'g platform \<Rightarrow> flight list \<Rightarrow> customer list \<Rightarrow> nat \<Rightarrow> 'g \<Rightarrow> error + booking \<times> 'g" where
  "booking_body P flights customers i g0 =
     (case df_sample1 P flights g0 of Inl e \<Rightarrow> Inl e | Inr (flight, g1) \<Rightarrow>
      case df_sample1 P customers g1 of Inl e \<Rightarrow> Inl e | Inr (customer, g2) \<Rightarrow>
       (let (days_before, g3) = randint P 1 90 g2;
            booking_date' = date flight - days_before;
            price = base_price flight;
            price = (if days_before < 7 then fmul P price (dbl P 1.3)
                     else if days_before > 60 then fmul P price (dbl P 0.85)
                     else price);
            (price, g4) =
              (if is_business customer = 1
               then (let (factor, g') = uniform P 1.0 1.4 g3 in (fmul P price factor, g'))
               else (price, g3));
            (noise, g5) = normal P 1.0 0.1 g4;
            price = fmul P price noise;
            price = max price 100;
            (pax, g6) = np_choice_p P [1, 2, 3] [0.7, 0.2, 0.1] g5
        in Inr (\<lparr>booking_id = ''BK'' @ fmt_0d 6 (i + 1),
                 flight_id = flight.flight_id flight,
                 customer_id = customer.customer_id customer,
                 booking_date = booking_date',
                 price_paid = np_round P price 2,
                 advance_days = days_before,
                 passengers = pax\<rparr>, g6)))"

subsection \<open>The script as a sequence of phases over its module-level state\<close>

text \<open>
  What the final prints show, as values (their formatting is the library's): the three
  row counts, total and mean of \<open>price_paid\<close>, the earliest and latest flight date, and
  the first three rows of flights and of bookings. The script reaches the summary with
  50,000, 15,000 and 150,000 rows. On a frame without rows, which has no columns either,
  pandas would raise \<open>KeyError\<close>; the model leaves that case out and gives the mean and
  the date range of an empty column no value.
\<close>

record summary =
  count_flights :: nat
  count_customers :: nat
  count_bookings :: nat
  total_revenue :: real
  average_ticket :: "real option"
  date_range :: "(datetime \<times> datetime) option"
  flights_head :: "flight list"
  bookings_head :: "booking list"

text \<open>
  The module-level state: numpy's global generator, the three data frames (empty until
  their pass assigns them), the files written so far (path to content) and the summary
  printed at the end. Directories and the progress messages are left out.
\<close>

record 'g state =
  rng :: 'g
  flights_df :: "flight list"
  customers_df :: "customer list"
  bookings_df :: "booking list"
  files :: "string \<rightharpoonup> string"
  printed :: "summary option"

definition seed_phase :: "'g platform \<Rightarrow> 'g state \<Rightarrow> 'g state" where
  "seed_phase P s = s\<lparr>rng := seed P 42\<rparr>"

definition flights_phase :: "'g platform \<Rightarrow> 'g state \<Rightarrow> error + 'g state" where
  "flights_phase P s =
     (case for_range n_flights (\<lambda>i g. Inr (flight_body P i g)) (rng s) of
        Inl e \<Rightarrow> Inl e
      | Inr (flight_data, g) \<Rightarrow>
          Inr (s\<lparr>rng := g, flights_df := flight_data,
                 files := (files s)(''../data/flights.csv'' \<mapsto> flights_csv P flight_data)\<rparr>))"

definition customers_phase :: "'g platform \<Rightarrow> 'g state \<Rightarrow> error + 'g state" where
  "customers_phase P s =
     (case for_range n_customers (\<lambda>i g. Inr (customer_body P i g)) (rng s) of
        Inl e \<Rightarrow> Inl e
      | Inr (customer_data, g) \<Rightarrow>
          Inr (s\<lparr>rng := g, customers_df := customer_data,
                 files := (files s)(''../data/customers.csv'' \<mapsto> customers_csv P customer_data)\<rparr>))"

definition bookings_phase :: "'g platform \<Rightarrow> 'g state \<Rightarrow> error + 'g state" where
  "bookings_phase P s =
     (case for_range n_bookings (booking_body P (flights_df s) (customers_df s)) (rng s) of
        Inl e \<Rightarrow> Inl e
      | Inr (booking_data, g) \<Rightarrow>
          Inr (s\<lparr>rng := g, bookings_df := booking_data,
                 files := (files s)(''../data/bookings.csv'' \<mapsto> bookings_csv P booking_data)\<rparr>))"

definition mean_opt :: "real list \<Rightarrow> real option" where
  "mean_opt xs = (if xs = [] then None else Some (sum_list xs / of_nat (length xs)))"

definition min_max :: "datetime list \<Rightarrow> (datetime \<times> datetime) option" where
  "min_max ds = (case ds of [] \<Rightarrow> None | d # rest \<Rightarrow> Some (fold min rest d, fold max rest d))"

definition summary_phase :: "'g state \<Rightarrow> 'g state" where
  "summary_phase s =
     s\<lparr>printed := Some
        \<lparr>count_flights = length (flights_df s),
         count_customers = length (customers_df s),
         count_bookings = length (bookings_df s),
         total_revenue = sum_list (map price_paid (bookings_df s)),
         average_ticket = mean_opt (map price_paid (bookings_df s)),
         date_range = min_max (map date (flights_df s)),
         flights_head = take 3 (flights_df s),
         bookings_head = take 3 (bookings_df s)\<rparr>\<rparr>"

definition main :: "'g platform \<Rightarrow> 'g state \<Rightarrow> error + 'g state" where
  "main P s0 =
     (case flights_phase P (seed_phase P s0) of Inl e \<Rightarrow> Inl e | Inr s1 \<Rightarrow>
      case customers_phase P s1 of Inl e \<Rightarrow> Inl e | Inr s2 \<Rightarrow>
      case bookings_phase P s2 of Inl e \<Rightarrow> Inl e | Inr s3 \<Rightarrow>
      Inr (summary_phase s3))"

subsection \<open>Scripted generators\<close>

text \<open>
  A generator that reads its draws from a tape of reals, one entry per call: the state
  is the position on the tape. An integer draw takes the entry's floor modulo the size
  of its range, the unit draw its fractional part, the Gaussian draw the entry itself,
  the uniform draw the point of its range that the entry's fractional part marks. Every
  sequence of draws within the documented ranges is the behaviour of some tape. The CSV
  text is left empty and the arithmetic is exact.
\<close>

definition tape_platform :: "(nat \<Rightarrow> real) \<Rightarrow> nat platform" where
  "tape_platform t =
     \<lparr>seed = (\<lambda>n. 0),
      randint = (\<lambda>low high g. (low + \<lfloor>t g\<rfloor> mod (high - low), Suc g)),
      random_sample = (\<lambda>g. (frac (t g), Suc g)),
      normal = (\<lambda>loc scale g. (t g, Suc g)),
      uniform = (\<lambda>low high g. (low + (high - low) * frac (t g), Suc g)),
      sample_index = (\<lambda>n g. (nat \<lfloor>t g\<rfloor> mod n, Suc g)),
      flights_csv = (\<lambda>rows. []),
      customers_csv = (\<lambda>rows. []),
      bookings_csv = (\<lambda>rows. []),
      fpu = exact\<rparr>"

text \<open>The tape that starts with the listed entries and continues with zeros.\<close>

definition tape_of :: "real list \<Rightarrow> nat \<Rightarrow> real" where
  "tape_of xs k = (if k < length xs then xs ! k else 0)"

text \<open>The state in which the script starts: nothing assigned, written or printed.\<close>

definition init :: "'g \<Rightarrow> (string \<rightharpoonup> string) \<Rightarrow> 'g state" where
  "init g fs = \<lparr>rng = g, flights_df = [], customers_df = [], bookings_df = [],
                files = fs, printed = None\<rparr>"

subsection \<open>The specification's wording of the price and of a customer\<close>

text \<open>
  The price of a booking as the specification lists its steps (4.3, steps 3 to 6), as a
  function of the flight's base price, the lead time, the customer's flag, the uniform
  factor and the Gaussian noise factor. The band: unchanged from 7 to 60 days, times
  1.3 below 7 days, times 0.85 above 60 days. Then the business factor, the noise, the
  floor at 100 and the rounding to 2 decimals. Every product is a floating-point
  product, and the rounding is the one of a \<open>numpy.float64\<close>.
\<close>

definition spec_band :: "'g platform \<Rightarrow> real \<Rightarrow> int \<Rightarrow> real" where
  "spec_band P base advance =
     (if 7 \<le> advance \<and> advance \<le> 60 then base
      else if advance < 7 then fmul P base (dbl P 1.3)
      else fmul P base (dbl P 0.85))"

definition spec_price :: "'g platform \<Rightarrow> real \<Rightarrow> int \<Rightarrow> int \<Rightarrow> real \<Rightarrow> real \<Rightarrow> real" where
  "spec_price P base advance business factor noise =
     (let banded = spec_band P base advance;
          premium = (if business = 1 then fmul P banded factor else banded);
          noisy = fmul P premium noise;
          floored = max noisy 100
      in np_round P floored 2)"

text \<open>
  A Bernoulli draw with success probability \<open>p\<close>, decided by a unit draw \<open>u\<close>: success on
  the upper part of the unit interval, of length \<open>p\<close>. This is what
  \<open>choice([0, 1], p=[1 - p, p])\<close> returns.
\<close>

definition bernoulli :: "real \<Rightarrow> real \<Rightarrow> int" where
  "bernoulli p u = (if u < 1 - p then 0 else 1)"

text \<open>
  A customer as the specification words it (4.2), from the loop index and the four
  draws: the age, the Gaussian(60000, 20000) draw, the unit draw of the flag and the
  index of the city. In \<open>spec_customer_stated\<close> the flag is decided by the income as the
  row records it, after flooring and rounding; in \<open>spec_customer\<close> by the floored income
  before it is rounded.
\<close>

definition spec_customer_stated :: "nat \<Rightarrow> int \<Rightarrow> real \<Rightarrow> real \<Rightarrow> nat \<Rightarrow> customer" where
  "spec_customer_stated i a x u j =
     (let inc = py_round (max x 25000) 0
      in \<lparr>customer.customer_id = ''CU'' @ fmt_0d 5 (i + 1),
          age = a,
          income = inc,
          is_business = bernoulli (if inc > 80000 \<and> a > 30 then 0.6 else 0.2) u,
          home_city = home_cities ! j\<rparr>)"

definition spec_customer :: "nat \<Rightarrow> int \<Rightarrow> real \<Rightarrow> real \<Rightarrow> nat \<Rightarrow> customer" where
  "spec_customer i a x u j =
     (let floored = max x 25000
      in \<lparr>customer.customer_id = ''CU'' @ fmt_0d 5 (i + 1),
          age = a,
          income = py_round floored 0,
          is_business = bernoulli (if floored > 80000 \<and> a > 30 then 0.6 else 0.2) u,
          home_city = home_cities ! j\<rparr>)"

text \<open>
  The four draws of one customer in the order the specification lists them, handed to
  one of the two readings.
\<close>

definition draw_customer ::
  "(nat \<Rightarrow> int \<Rightarrow> real \<Rightarrow> real \<Rightarrow> nat \<Rightarrow> customer) \<Rightarrow> 'g platform \<Rightarrow> nat \<Rightarrow> 'g \<Rightarrow> customer \<times> 'g" where
  "draw_customer reading P i g0 =
     (let (a, g1) = randint P 18 70 g0;
          (x, g2) = normal P 60000 20000 g1;
          (u, g3) = random_sample P g2;
          (j, g4) = randint P 0 5 g3
      in (reading i a x u (nat j), g4))"

section \<open>Properties\<close>

subsection \<open>Worked examples\<close>

text \<open>
  The loop bodies on short tapes, with exact arithmetic: a flight on the route NYC-CHI
  (Gaussian draw 349.3824, rounded to 349.38), two customers (the second one's income
  is floored at 25000), a last-minute booking by a business customer (100 * 1.3 * 1.2 *
  1.11 = 173.16), and the error of sampling an empty frame.
\<close>

lemma flight_body_example:
  "flight_body (tape_platform (tape_of [1, 1, 2, 36, 349.3824])) 41 0 =
     (\<lparr>flight.flight_id = ''FL00042'', route = ''NYC-CHI'', date = datetime 2023 2 6,
       aircraft = ''B737'', capacity = 220, base_price = 349.38\<rparr>, 5)"
  by code_simp

lemma customers_loop_example:
  "for_range 2 (\<lambda>i g. Inr (customer_body (tape_platform (tape_of [22, 80000.25, 0.5, 3, 51, - 40000, 0.9, 2])) i g)) 0 =
     Inr ([\<lparr>customer.customer_id = ''CU00001'', age = 40, income = 80000, is_business = 1,
             home_city = ''MIA''\<rparr>,
           \<lparr>customer.customer_id = ''CU00002'', age = 69, income = 25000, is_business = 1,
             home_city = ''CHI''\<rparr>], 8)"
  by code_simp

lemma booking_body_example:
  "booking_body (tape_platform (tape_of [0, 0, 3, 0.5, 1.11, 0.95]))
     [\<lparr>flight.flight_id = ''FL00001'', route = ''NYC-LAX'', date = datetime 2023 12 31,
        aircraft = ''B737'', capacity = 220, base_price = 100\<rparr>]
     [\<lparr>customer.customer_id = ''CU00001'', age = 40, income = 80000, is_business = 1,
        home_city = ''MIA''\<rparr>] 0 0 =
     Inr (\<lparr>booking_id = ''BK000001'', flight_id = ''FL00001'', customer_id = ''CU00001'',
            booking_date = datetime 2023 12 27, price_paid = 173.16, advance_days = 4,
            passengers = 3\<rparr>, 6)"
  by code_simp

lemma booking_body_empty_frame:
  "booking_body (tape_platform (tape_of [])) [] cu 0 0 = Inl ValueError"
  by (simp add: booking_body_def df_sample1_def)

subsection \<open>Rounding and identifier formatting\<close>

lemma round_half_even_ge: "of_int n \<le> x \<Longrightarrow> n \<le> round_half_even x"
proof -
  assume "of_int n \<le> x"
  then have "n \<le> \<lfloor>x\<rfloor>" by (simp add: le_floor_iff)
  then show ?thesis unfolding round_half_even_def Let_def by auto
qed

lemma py_round_ge:
  assumes "of_int n \<le> x * 10 ^ nd"
  shows "of_int n / 10 ^ nd \<le> py_round x nd"
  unfolding py_round_def using round_half_even_ge [OF assms]
  by (simp add: divide_right_mono)

lemma py_round_2_ge_100: "100 \<le> x \<Longrightarrow> 100 \<le> py_round x 2"
  using py_round_ge [of 10000 x 2] by simp

lemma py_round_0_ge_25000: "25000 \<le> x \<Longrightarrow> 25000 \<le> py_round x 0"
  using py_round_ge [of 25000 x 0] by simp

lemma dbl_mono: "x \<le> y \<Longrightarrow> dbl P x \<le> dbl P y"
  using nearest [of "fpu P"] by (auto simp: dbl_def mono_def)

lemma dbl_of_int: "\<bar>k\<bar> \<le> 2 ^ 53 \<Longrightarrow> dbl P (of_int k) = of_int k"
  using nearest [of "fpu P"] by (auto simp: dbl_def)

lemma dbl_100: "dbl P 100 = 100"
  using dbl_of_int [of 100 P] by simp

lemma dbl_10000: "dbl P 10000 = 10000"
  using dbl_of_int [of 10000 P] by simp

lemma float_round_2_ge_100:
  assumes "100 \<le> x"
  shows "100 \<le> float_round P x 2"
proof -
  have "dbl P 100 \<le> dbl P (py_round x 2)"
    using py_round_2_ge_100 [OF assms] by (rule dbl_mono)
  then show ?thesis by (simp add: float_round_def dbl_100)
qed

lemma np_round_2_ge_100:
  assumes "100 \<le> x"
  shows "100 \<le> np_round P x 2"
proof -
  have "10000 \<le> x * 100" using assms by simp
  then have "dbl P 10000 \<le> dbl P (x * 100)" by (rule dbl_mono)
  then have "of_int 10000 \<le> dbl P (x * 100)" by (simp add: dbl_10000)
  then have "10000 \<le> round_half_even (dbl P (x * 100))" by (rule round_half_even_ge)
  then have "100 \<le> real_of_int (round_half_even (dbl P (x * 100))) / 100" by simp
  then have "dbl P 100 \<le> dbl P (real_of_int (round_half_even (dbl P (x * 100))) / 100)"
    by (rule dbl_mono)
  then show ?thesis by (simp add: np_round_def dbl_100)
qed

lemma length_str_nat_pos: "0 < length (str_nat n)"
  by (induction n rule: str_nat.induct) (subst str_nat.simps, simp)

lemma length_str_nat_le: "n < 10 ^ k \<Longrightarrow> 0 < k \<Longrightarrow> length (str_nat n) \<le> k"
proof (induction n arbitrary: k rule: str_nat.induct)
  case (1 n)
  show ?case
  proof (cases "n < 10")
    case True
    then show ?thesis using "1.prems" by (subst str_nat.simps) simp
  next
    case False
    then obtain k' where k: "k = Suc k'" using "1.prems" by (cases k) auto
    have "k' \<noteq> 0" using False "1.prems" k by (cases "k' = 0") auto
    moreover have "n div 10 < 10 ^ k'" using "1.prems" k by (simp add: less_mult_imp_div_less mult.commute)
    ultimately have "length (str_nat (n div 10)) \<le> k'" using "1.IH" [OF False, of k'] by simp
    then show ?thesis using False k by (subst str_nat.simps) simp
  qed
qed

lemma digit_val_digit_char: "d < 10 \<Longrightarrow> digit_val (digit_char d) = d"
proof -
  assume "d < 10"
  then have "d \<in> {0, 1, 2, 3, 4, 5, 6, 7, 8, 9}" by auto
  then show ?thesis by (auto simp: digit_val_def digit_char_def)
qed

lemma digit_char_digit: "d < 10 \<Longrightarrow> digit_char d \<in> set ''0123456789''"
  unfolding digit_char_def by (rule nth_mem) simp

lemma digits_str_nat: "set (str_nat n) \<subseteq> set ''0123456789''"
proof (induction n rule: str_nat.induct)
  case (1 n)
  show ?case
  proof (cases "n < 10")
    case True
    then show ?thesis using digit_char_digit [of n] by (subst str_nat.simps) simp
  next
    case False
    then show ?thesis using "1.IH" digit_char_digit [of "n mod 10"]
      by (subst str_nat.simps) simp
  qed
qed

lemma digits_fmt_0d: "set (fmt_0d w n) \<subseteq> set ''0123456789''"
  using digits_str_nat [of n] by (auto simp: fmt_0d_def)

lemma int_of_str_snoc: "int_of_str (s @ [c]) = 10 * int_of_str s + digit_val c"
  by (simp add: int_of_str_def)

lemma int_of_str_str_nat: "int_of_str (str_nat n) = n"
proof (induction n rule: str_nat.induct)
  case (1 n)
  show ?case
  proof (cases "n < 10")
    case True
    then show ?thesis by (subst str_nat.simps) (simp add: int_of_str_def digit_val_digit_char)
  next
    case False
    then show ?thesis using "1.IH"
      by (subst str_nat.simps) (simp add: int_of_str_snoc digit_val_digit_char)
  qed
qed

lemma int_of_str_zeros: "int_of_str (replicate k (CHR ''0'') @ s) = int_of_str s"
proof -
  have "foldl (\<lambda>a c. 10 * a + digit_val c) 0 (replicate k (CHR ''0'')) = 0"
    by (induction k) (simp_all add: digit_val_def)
  then show ?thesis by (simp add: int_of_str_def)
qed

lemma int_of_str_fmt_0d: "int_of_str (fmt_0d w n) = n"
  by (simp add: fmt_0d_def int_of_str_zeros int_of_str_str_nat)

lemma fmt_0d_inj: "fmt_0d w m = fmt_0d w n \<Longrightarrow> m = n"
  by (metis int_of_str_fmt_0d)

lemma length_fmt_0d: "n < 10 ^ w \<Longrightarrow> 0 < w \<Longrightarrow> length (fmt_0d w n) = w"
  using length_str_nat_le [of n w] by (simp add: fmt_0d_def)

subsection \<open>The table-building loop\<close>

lemma for_range_0: "for_range 0 body g = Inr ([], g)"
  by (simp add: for_range_def)

lemma for_range_Suc: "for_range (Suc n) body g = append_row body (for_range n body g) n"
  by (simp add: for_range_def)

lemma append_row_Inr:
  "append_row body r i = Inr (rows, g') \<longleftrightarrow>
     (\<exists>rows0 g row. r = Inr (rows0, g) \<and> body i g = Inr (row, g') \<and> rows = rows0 @ [row])"
  by (cases r) (auto split: sum.splits)

lemma for_range_Suc_Inr:
  "for_range (Suc n) body g = Inr (rows, g') \<longleftrightarrow>
     (\<exists>rows0 g1 row. for_range n body g = Inr (rows0, g1) \<and> body n g1 = Inr (row, g') \<and>
        rows = rows0 @ [row])"
  by (simp add: for_range_Suc append_row_Inr)

lemma for_range_length: "for_range n body g = Inr (rows, g') \<Longrightarrow> length rows = n"
proof (induction n arbitrary: rows g')
  case 0
  then show ?case by (simp add: for_range_0)
next
  case (Suc n)
  then show ?case by (auto simp: for_range_Suc_Inr)
qed

text \<open>Rows are only appended: the table after \<open>m\<close> iterations is a prefix of the final one.\<close>

lemma for_range_prefix:
  "for_range n body g = Inr (rows, g') \<Longrightarrow> m \<le> n \<Longrightarrow>
     \<exists>gm. for_range m body g = Inr (take m rows, gm)"
proof (induction n arbitrary: rows g')
  case 0
  then show ?case by (simp add: for_range_0)
next
  case (Suc n)
  from Suc.prems(1) obtain rows0 g1 row where
    r0: "for_range n body g = Inr (rows0, g1)" and b: "body n g1 = Inr (row, g')"
    and rows: "rows = rows0 @ [row]"
    by (auto simp: for_range_Suc_Inr)
  have len: "length rows0 = n" using r0 by (rule for_range_length)
  show ?case
  proof (cases "m = Suc n")
    case True
    then show ?thesis using Suc.prems(1) len rows by auto
  next
    case False
    then have "m \<le> n" using Suc.prems(2) by simp
    from Suc.IH [OF r0 this] obtain gm where "for_range m body g = Inr (take m rows0, gm)" ..
    then show ?thesis using \<open>m \<le> n\<close> len rows by auto
  qed
qed

text \<open>Row \<open>i\<close> is what the body returns in iteration \<open>i\<close>, from the state the first \<open>i\<close>
  iterations leave.\<close>

lemma for_range_nth:
  assumes "for_range n body g = Inr (rows, g')" and "i < n"
  shows "\<exists>gi gi' rows_i. for_range i body g = Inr (rows_i, gi) \<and> body i gi = Inr (rows ! i, gi')"
proof -
  from for_range_prefix [OF assms(1), of "Suc i"] assms(2)
  obtain gm where "for_range (Suc i) body g = Inr (take (Suc i) rows, gm)" by auto
  then obtain rows0 g1 row where
    r0: "for_range i body g = Inr (rows0, g1)" and b: "body i g1 = Inr (row, gm)"
    and rows: "take (Suc i) rows = rows0 @ [row]"
    by (auto simp: for_range_Suc_Inr)
  have "length rows0 = i" using r0 by (rule for_range_length)
  moreover have "length rows = n" using assms(1) by (rule for_range_length)
  ultimately have "rows ! i = row" using rows assms(2)
    by (metis lessI nth_append_length nth_take)
  then show ?thesis using r0 b by auto
qed

lemma for_range_all:
  assumes "for_range n body g = Inr (rows, g')"
    and "\<And>i gi gi' row. i < n \<Longrightarrow> body i gi = Inr (row, gi') \<Longrightarrow> Q i row"
    and "i < n"
  shows "Q i (rows ! i)"
  using for_range_nth [OF assms(1,3)] assms(2) [OF assms(3)] by blast

lemma for_range_total:
  assumes "\<And>i gi. i < n \<Longrightarrow> \<exists>row gi'. body i gi = Inr (row, gi')"
  shows "\<exists>rows g'. for_range n body g = Inr (rows, g')"
  using assms
proof (induction n)
  case 0
  then show ?case by (simp add: for_range_0)
next
  case (Suc n)
  then obtain rows0 g1 where r0: "for_range n body g = Inr (rows0, g1)" by force
  from Suc.prems [of n g1] obtain row g2 where "body n g1 = Inr (row, g2)" by auto
  then show ?case using r0 by (auto simp: for_range_Suc_Inr)
qed

lemma for_range_error:
  "for_range n body g = Inl e \<Longrightarrow> \<exists>i gi. i < n \<and> body i gi = Inl e"
proof (induction n)
  case 0
  then show ?case by (simp add: for_range_0)
next
  case (Suc n)
  show ?case
  proof (cases "for_range n body g")
    case (Inl e')
    then have "e' = e" using Suc.prems by (simp add: for_range_Suc)
    then show ?thesis using Suc.IH Inl less_Suc_eq by auto
  next
    case (Inr p)
    then obtain rows0 g1 where "for_range n body g = Inr (rows0, g1)" by (cases p) auto
    then have "body n g1 = Inl e" using Suc.prems
      by (auto simp: for_range_Suc split: sum.splits)
    then show ?thesis by blast
  qed
qed

subsection \<open>Draws and loop bodies\<close>

lemma rng_ok_randint:
  "rng_ok P \<Longrightarrow> low < high \<Longrightarrow> low \<le> fst (randint P low high g) \<and> fst (randint P low high g) < high"
  by (simp add: rng_ok_def)

lemma rng_ok_random_sample:
  "rng_ok P \<Longrightarrow> 0 \<le> fst (random_sample P g) \<and> fst (random_sample P g) < 1"
  by (simp add: rng_ok_def)

lemma rng_ok_sample_index: "rng_ok P \<Longrightarrow> 0 < n \<Longrightarrow> fst (sample_index P n g) < n"
  by (simp add: rng_ok_def)

lemma np_choice_mem:
  assumes "rng_ok P" and "a \<noteq> []"
  shows "fst (np_choice P a g) \<in> set a"
proof -
  have "0 \<le> fst (randint P 0 (int (length a)) g) \<and> fst (randint P 0 (int (length a)) g) < int (length a)"
    using assms by (intro rng_ok_randint) simp_all
  then have "nat (fst (randint P 0 (int (length a)) g)) < length a" by linarith
  then show ?thesis by (simp add: np_choice_def case_prod_beta)
qed

lemma df_sample1_Inr:
  "df_sample1 P df g = Inr (row, g') \<longleftrightarrow>
     df \<noteq> [] \<and> row = df ! fst (sample_index P (length df) g) \<and> g' = snd (sample_index P (length df) g)"
  by (auto simp: df_sample1_def case_prod_beta)

lemma df_sample1_mem:
  "rng_ok P \<Longrightarrow> df_sample1 P df g = Inr (row, g') \<Longrightarrow> row \<in> set df"
  by (auto simp: df_sample1_Inr intro!: nth_mem rng_ok_sample_index)

lemma df_sample1_total: "df \<noteq> [] \<Longrightarrow> \<exists>row g'. df_sample1 P df g = Inr (row, g')"
  by (simp add: df_sample1_def case_prod_beta)

lemma flight_body_id: "flight.flight_id (fst (flight_body P i g)) = ''FL'' @ fmt_0d 5 (i + 1)"
  by (simp add: flight_body_def Let_def case_prod_beta)

lemma flight_body_base_price: "100 \<le> base_price (fst (flight_body P i g))"
  by (simp add: flight_body_def Let_def case_prod_beta float_round_2_ge_100)

lemma flight_body_date:
  "date (fst (flight_body P i g)) =
     datetime 2023 1 1 + fst (randint P 0 365 (snd (np_choice P capacities (snd (np_choice P aircraft_types (snd (np_choice P routes g)))))))"
  by (simp add: flight_body_def Let_def case_prod_beta)

lemma customer_body_id: "customer.customer_id (fst (customer_body P i g)) = ''CU'' @ fmt_0d 5 (i + 1)"
  by (simp add: customer_body_def Let_def case_prod_beta)

lemma booking_body_id:
  "booking_body P fl cu i g = Inr (b, g') \<Longrightarrow> booking_id b = ''BK'' @ fmt_0d 6 (i + 1)"
  by (auto simp: booking_body_def Let_def case_prod_beta split: sum.splits)

lemma booking_body_price: "booking_body P fl cu i g = Inr (b, g') \<Longrightarrow> 100 \<le> price_paid b"
  by (auto simp: booking_body_def Let_def case_prod_beta np_round_2_ge_100 split: sum.splits)

lemma booking_body_total:
  "fl \<noteq> [] \<Longrightarrow> cu \<noteq> [] \<Longrightarrow> \<exists>b g'. booking_body P fl cu i g = Inr (b, g')"
  by (simp add: booking_body_def df_sample1_def Let_def case_prod_beta)

subsection \<open>The whole script\<close>

lemma flights_loop_total:
  "\<exists>rows g'. for_range n (\<lambda>i g. Inr (flight_body P i g)) g0 = Inr (rows, g')"
  by (rule for_range_total) (metis prod.collapse)

lemma customers_loop_total:
  "\<exists>rows g'. for_range n (\<lambda>i g. Inr (customer_body P i g)) g0 = Inr (rows, g')"
  by (rule for_range_total) (metis prod.collapse)

lemma main_run:
  assumes "main P s0 = Inr t"
  obtains g1 g2 g3 where
    "for_range n_flights (\<lambda>i g. Inr (flight_body P i g)) (seed P 42) = Inr (flights_df t, g1)"
    "for_range n_customers (\<lambda>i g. Inr (customer_body P i g)) g1 = Inr (customers_df t, g2)"
    "for_range n_bookings (booking_body P (flights_df t) (customers_df t)) g2 = Inr (bookings_df t, g3)"
  using assms
  by (auto simp: main_def seed_phase_def flights_phase_def customers_phase_def bookings_phase_def
      summary_phase_def split: sum.splits prod.splits)

lemma main_total: "\<exists>t. main P s0 = Inr t"
proof -
  obtain fl g1 where fl: "for_range n_flights (\<lambda>i g. Inr (flight_body P i g)) (seed P 42) = Inr (fl, g1)"
    using flights_loop_total [of n_flights P "seed P 42"] by blast
  obtain cu g2 where cu: "for_range n_customers (\<lambda>i g. Inr (customer_body P i g)) g1 = Inr (cu, g2)"
    using customers_loop_total [of n_customers P g1] by blast
  have "length fl = n_flights" using fl by (rule for_range_length)
  then have fl_ne: "fl \<noteq> []" by (auto simp: n_flights_def)
  have "length cu = n_customers" using cu by (rule for_range_length)
  then have cu_ne: "cu \<noteq> []" by (auto simp: n_customers_def)
  have "\<exists>rows g'. for_range n_bookings (booking_body P fl cu) g2 = Inr (rows, g')"
    by (rule for_range_total) (rule booking_body_total [OF fl_ne cu_ne])
  then obtain bk g3 where bk: "for_range n_bookings (booking_body P fl cu) g2 = Inr (bk, g3)"
    by blast
  show ?thesis
    using fl cu bk
    by (simp add: main_def seed_phase_def flights_phase_def customers_phase_def bookings_phase_def)
qed

lemma zero_padded_fmt_0d: "n < 10 ^ w \<Longrightarrow> 0 < w \<Longrightarrow> zero_padded w n (fmt_0d w n)"
  using digits_fmt_0d [of w n] by (simp add: zero_padded_def length_fmt_0d int_of_str_fmt_0d)

lemma ids_distinct:
  assumes "\<And>i. i < length rows \<Longrightarrow> f (rows ! i) = pre @ fmt_0d w (i + 1)"
  shows "distinct (map f rows)"
proof -
  have "f (rows ! i) \<noteq> f (rows ! j)" if "i < length rows" "j < length rows" "i \<noteq> j" for i j
  proof
    assume "f (rows ! i) = f (rows ! j)"
    then have "fmt_0d w (i + 1) = fmt_0d w (j + 1)" using assms that by simp
    then show False using fmt_0d_inj that(3) by fastforce
  qed
  then show ?thesis by (simp add: distinct_conv_nth)
qed

lemma flights_loop_id:
  assumes "for_range n (\<lambda>i g. Inr (flight_body P i g)) g0 = Inr (rows, g')" and "i < n"
  shows "flight.flight_id (rows ! i) = ''FL'' @ fmt_0d 5 (i + 1)"
proof -
  from for_range_nth [OF assms] obtain gi gi' where "Inr (flight_body P i gi) = Inr (rows ! i, gi')"
    by blast
  then have "rows ! i = fst (flight_body P i gi)" by (metis fst_conv sum.inject(2))
  then show ?thesis by (simp add: flight_body_id)
qed

lemma customers_loop_id:
  assumes "for_range n (\<lambda>i g. Inr (customer_body P i g)) g0 = Inr (rows, g')" and "i < n"
  shows "customer.customer_id (rows ! i) = ''CU'' @ fmt_0d 5 (i + 1)"
proof -
  from for_range_nth [OF assms] obtain gi gi' where "Inr (customer_body P i gi) = Inr (rows ! i, gi')"
    by blast
  then have "rows ! i = fst (customer_body P i gi)" by (metis fst_conv sum.inject(2))
  then show ?thesis by (simp add: customer_body_id)
qed

lemma bookings_loop_id:
  assumes "for_range n (booking_body P fl cu) g0 = Inr (rows, g')" and "i < n"
  shows "booking_id (rows ! i) = ''BK'' @ fmt_0d 6 (i + 1)"
proof -
  from for_range_nth [OF assms] obtain gi gi' where "booking_body P fl cu i gi = Inr (rows ! i, gi')"
    by blast
  then show ?thesis by (rule booking_body_id)
qed

lemma main_lengths:
  assumes "main P s0 = Inr t"
  shows "length (flights_df t) = n_flights" "length (customers_df t) = n_customers"
    "length (bookings_df t) = n_bookings"
  using main_run [OF assms] for_range_length by metis+

lemma main_ids:
  assumes "main P s0 = Inr t"
  shows "i < n_flights \<Longrightarrow> flight.flight_id (flights_df t ! i) = ''FL'' @ fmt_0d 5 (i + 1)"
    and "i < n_customers \<Longrightarrow> customer.customer_id (customers_df t ! i) = ''CU'' @ fmt_0d 5 (i + 1)"
    and "i < n_bookings \<Longrightarrow> booking_id (bookings_df t ! i) = ''BK'' @ fmt_0d 6 (i + 1)"
  using main_run [OF assms] flights_loop_id customers_loop_id bookings_loop_id by metis+

lemma main_ids_distinct:
  assumes "main P s0 = Inr t"
  shows "distinct (map flight.flight_id (flights_df t))"
    and "distinct (map customer.customer_id (customers_df t))"
    and "distinct (map booking_id (bookings_df t))"
proof -
  show "distinct (map flight.flight_id (flights_df t))"
    by (rule ids_distinct [where pre = "''FL''" and w = 5])
      (simp add: main_ids(1) [OF assms] main_lengths(1) [OF assms])
  show "distinct (map customer.customer_id (customers_df t))"
    by (rule ids_distinct [where pre = "''CU''" and w = 5])
      (simp add: main_ids(2) [OF assms] main_lengths(2) [OF assms])
  show "distinct (map booking_id (bookings_df t))"
    by (rule ids_distinct [where pre = "''BK''" and w = 6])
      (simp add: main_ids(3) [OF assms] main_lengths(3) [OF assms])
qed

subsection \<open>Row counts and identifiers\<close>

text \<open>
  Claim C5. The script always runs to completion and leaves exactly 50,000 flights, 15,000
  customers and 150,000 bookings. In each table the \<open>k\<close>-th row (counting from 1) carries
  the prefix (\<open>FL\<close>, \<open>CU\<close>, \<open>BK\<close>) followed by \<open>k\<close> zero-padded to 5 digits (6 for
  bookings), and the identifiers of a table are pairwise distinct.
\<close>

theorem generator_counts_and_ids:
  "\<exists>t. main P s0 = Inr t \<and>
     length (flights_df t) = 50000 \<and> length (customers_df t) = 15000 \<and>
     length (bookings_df t) = 150000 \<and>
     (\<forall>k. 1 \<le> k \<and> k \<le> 50000 \<longrightarrow>
        flight.flight_id (flights_df t ! (k - 1)) = ''FL'' @ fmt_0d 5 k \<and> zero_padded 5 k (fmt_0d 5 k)) \<and>
     (\<forall>k. 1 \<le> k \<and> k \<le> 15000 \<longrightarrow>
        customer.customer_id (customers_df t ! (k - 1)) = ''CU'' @ fmt_0d 5 k \<and> zero_padded 5 k (fmt_0d 5 k)) \<and>
     (\<forall>k. 1 \<le> k \<and> k \<le> 150000 \<longrightarrow>
        booking_id (bookings_df t ! (k - 1)) = ''BK'' @ fmt_0d 6 k \<and> zero_padded 6 k (fmt_0d 6 k)) \<and>
     distinct (map flight.flight_id (flights_df t)) \<and>
     distinct (map customer.customer_id (customers_df t)) \<and>
     distinct (map booking_id (bookings_df t))"
proof -
  obtain t where t: "main P s0 = Inr t" using main_total by blast
  have fl: "flight.flight_id (flights_df t ! (k - 1)) = ''FL'' @ fmt_0d 5 k \<and> zero_padded 5 k (fmt_0d 5 k)"
    if "1 \<le> k \<and> k \<le> 50000" for k
    using that main_ids(1) [OF t, of "k - 1"] zero_padded_fmt_0d [of k 5]
    by (auto simp: n_flights_def)
  have cu: "customer.customer_id (customers_df t ! (k - 1)) = ''CU'' @ fmt_0d 5 k \<and> zero_padded 5 k (fmt_0d 5 k)"
    if "1 \<le> k \<and> k \<le> 15000" for k
    using that main_ids(2) [OF t, of "k - 1"] zero_padded_fmt_0d [of k 5]
    by (auto simp: n_customers_def)
  have bk: "booking_id (bookings_df t ! (k - 1)) = ''BK'' @ fmt_0d 6 k \<and> zero_padded 6 k (fmt_0d 6 k)"
    if "1 \<le> k \<and> k \<le> 150000" for k
    using that main_ids(3) [OF t, of "k - 1"] zero_padded_fmt_0d [of k 6]
    by (auto simp: n_bookings_def)
  have len: "length (flights_df t) = 50000" "length (customers_df t) = 15000"
    "length (bookings_df t) = 150000"
    using main_lengths [OF t] by (simp_all add: n_flights_def n_customers_def n_bookings_def)
  have A: "\<forall>k. 1 \<le> k \<and> k \<le> 50000 \<longrightarrow>
        flight.flight_id (flights_df t ! (k - 1)) = ''FL'' @ fmt_0d 5 k \<and> zero_padded 5 k (fmt_0d 5 k)"
    using fl by blast
  have B: "\<forall>k. 1 \<le> k \<and> k \<le> 15000 \<longrightarrow>
        customer.customer_id (customers_df t ! (k - 1)) = ''CU'' @ fmt_0d 5 k \<and> zero_padded 5 k (fmt_0d 5 k)"
    using cu by blast
  have C: "\<forall>k. 1 \<le> k \<and> k \<le> 150000 \<longrightarrow>
        booking_id (bookings_df t ! (k - 1)) = ''BK'' @ fmt_0d 6 k \<and> zero_padded 6 k (fmt_0d 6 k)"
    using bk by blast
  from t len A B C main_ids_distinct [OF t] show ?thesis
    by (intro exI [of _ t] conjI)
qed

theorem generator_counts_and_ids_witness:
  "\<exists>t. main (tape_platform (tape_of [])) (init 0 Map.empty) = Inr t \<and>
     length (flights_df t) = 50000 \<and>
     flight.flight_id (flights_df t ! 0) = ''FL00001'' \<and>
     flight.flight_id (flights_df t ! 49999) = ''FL50000'' \<and>
     customer.customer_id (customers_df t ! 14999) = ''CU15000'' \<and>
     booking_id (bookings_df t ! 0) = ''BK000001'' \<and>
     booking_id (bookings_df t ! 149999) = ''BK150000''"
proof -
  from generator_counts_and_ids [of "tape_platform (tape_of [])" "init 0 Map.empty"]
  obtain t where t: "main (tape_platform (tape_of [])) (init 0 Map.empty) = Inr t"
    and len: "length (flights_df t) = 50000"
    and fl: "\<forall>k. 1 \<le> k \<and> k \<le> 50000 \<longrightarrow>
        flight.flight_id (flights_df t ! (k - 1)) = ''FL'' @ fmt_0d 5 k \<and> zero_padded 5 k (fmt_0d 5 k)"
    and cu: "\<forall>k. 1 \<le> k \<and> k \<le> 15000 \<longrightarrow>
        customer.customer_id (customers_df t ! (k - 1)) = ''CU'' @ fmt_0d 5 k \<and> zero_padded 5 k (fmt_0d 5 k)"
    and bk: "\<forall>k. 1 \<le> k \<and> k \<le> 150000 \<longrightarrow>
        booking_id (bookings_df t ! (k - 1)) = ''BK'' @ fmt_0d 6 k \<and> zero_padded 6 k (fmt_0d 6 k)"
    by blast
  have e1: "fmt_0d 5 1 = ''00001''" by code_simp
  have e2: "fmt_0d 5 50000 = ''50000''" by (simp add: fmt_0d_def str_nat.simps digit_char_def)
  have e3: "fmt_0d 5 15000 = ''15000''" by (simp add: fmt_0d_def str_nat.simps digit_char_def)
  have e4: "fmt_0d 6 1 = ''000001''" by code_simp
  have e5: "fmt_0d 6 150000 = ''150000''" by (simp add: fmt_0d_def str_nat.simps digit_char_def)
  have "flight.flight_id (flights_df t ! 0) = ''FL00001''" using fl [rule_format, of 1] e1 by simp
  moreover have "flight.flight_id (flights_df t ! 49999) = ''FL50000''"
    using fl [rule_format, of 50000] e2 by simp
  moreover have "customer.customer_id (customers_df t ! 14999) = ''CU15000''"
    using cu [rule_format, of 15000] e3 by simp
  moreover have "booking_id (bookings_df t ! 0) = ''BK000001''" using bk [rule_format, of 1] e4 by simp
  moreover have "booking_id (bookings_df t ! 149999) = ''BK150000''"
    using bk [rule_format, of 150000] e5 by simp
  ultimately show ?thesis using t len by (intro exI [of _ t]) simp
qed

subsection \<open>Rows of the final tables\<close>

lemma main_flight_rows:
  assumes "main P s0 = Inr t" and "f \<in> set (flights_df t)"
  obtains i g where "i < n_flights" "f = fst (flight_body P i g)"
proof -
  from assms(2) obtain i where i: "i < length (flights_df t)" "f = flights_df t ! i"
    by (auto simp: in_set_conv_nth)
  from main_run [OF assms(1)] obtain g1 where
    run: "for_range n_flights (\<lambda>i g. Inr (flight_body P i g)) (seed P 42) = Inr (flights_df t, g1)"
    by blast
  have "i < n_flights" using i(1) main_lengths(1) [OF assms(1)] by simp
  from for_range_nth [OF run this] obtain gi gi' where
    "Inr (flight_body P i gi) = Inr (flights_df t ! i, gi')" by blast
  then have "f = fst (flight_body P i gi)" using i(2) by (metis fst_conv sum.inject(2))
  then show ?thesis using that \<open>i < n_flights\<close> by blast
qed

lemma main_customer_rows:
  assumes "main P s0 = Inr t" and "c \<in> set (customers_df t)"
  obtains i g where "i < n_customers" "c = fst (customer_body P i g)"
proof -
  from assms(2) obtain i where i: "i < length (customers_df t)" "c = customers_df t ! i"
    by (auto simp: in_set_conv_nth)
  from main_run [OF assms(1)] obtain g1 g2 where
    run: "for_range n_customers (\<lambda>i g. Inr (customer_body P i g)) g1 = Inr (customers_df t, g2)"
    by blast
  have "i < n_customers" using i(1) main_lengths(2) [OF assms(1)] by simp
  from for_range_nth [OF run this] obtain gi gi' where
    "Inr (customer_body P i gi) = Inr (customers_df t ! i, gi')" by blast
  then have "c = fst (customer_body P i gi)" using i(2) by (metis fst_conv sum.inject(2))
  then show ?thesis using that \<open>i < n_customers\<close> by blast
qed

lemma main_booking_rows:
  assumes "main P s0 = Inr t" and "b \<in> set (bookings_df t)"
  obtains i g g' where "i < n_bookings"
    "booking_body P (flights_df t) (customers_df t) i g = Inr (b, g')"
proof -
  from assms(2) obtain i where i: "i < length (bookings_df t)" "b = bookings_df t ! i"
    by (auto simp: in_set_conv_nth)
  from main_run [OF assms(1)] obtain g2 g3 where
    run: "for_range n_bookings (booking_body P (flights_df t) (customers_df t)) g2 = Inr (bookings_df t, g3)"
    by blast
  have "i < n_bookings" using i(1) main_lengths(3) [OF assms(1)] by simp
  from for_range_nth [OF run this] obtain gi gi' where
    "booking_body P (flights_df t) (customers_df t) i gi = Inr (bookings_df t ! i, gi')" by blast
  then show ?thesis using that \<open>i < n_bookings\<close> i(2) by blast
qed

lemma main_first_rows:
  assumes "main P s0 = Inr t"
  shows "flights_df t ! 0 \<in> set (flights_df t)" "customers_df t ! 0 \<in> set (customers_df t)"
    "bookings_df t ! 0 \<in> set (bookings_df t)"
  using main_lengths [OF assms]
  by (simp_all add: n_flights_def n_customers_def n_bookings_def)

lemma rng_ok_tape: "rng_ok (tape_platform t)"
proof -
  have "low + k mod (high - low) < high" if "low < high" for low high k :: int
    using pos_mod_bound [of "high - low" k] that by linarith
  then show ?thesis
    by (simp add: rng_ok_def tape_platform_def frac_lt_1)
qed


subsection \<open>Price floor\<close>

text \<open>
  Claim C2. In every run that completes, every flight has \<open>base_price \<ge> 100\<close> and every
  booking has \<open>price_paid \<ge> 100\<close>, whatever the generator returns (no assumption on the
  draws: the Gaussian draws may be arbitrarily negative). The floor is applied before
  the rounding to 2 decimals, and the rounding keeps it: \<open>round(max(x, 100), 2) \<ge> 100\<close>
  for every \<open>x\<close>, for the exact decimal rounding as well as for the two floating-point
  roundings the script applies (of a Python float for flights, of a \<open>numpy.float64\<close> for
  bookings).
\<close>

theorem prices_at_least_100:
  "main P s0 = Inr t \<Longrightarrow>
     (\<forall>f \<in> set (flights_df t). 100 \<le> base_price f) \<and>
     (\<forall>b \<in> set (bookings_df t). 100 \<le> price_paid b) \<and>
     (\<forall>x. 100 \<le> py_round (max x 100) 2) \<and>
     (\<forall>x. 100 \<le> float_round P (max x 100) 2) \<and>
     (\<forall>x. 100 \<le> np_round P (max x 100) 2)"
proof (intro conjI ballI allI)
  assume t: "main P s0 = Inr t"
  show "100 \<le> base_price f" if "f \<in> set (flights_df t)" for f
    using main_flight_rows [OF t that] flight_body_base_price by metis
  show "100 \<le> price_paid b" if "b \<in> set (bookings_df t)" for b
    using main_booking_rows [OF t that] booking_body_price by metis
  show "100 \<le> py_round (max x 100) 2" for x
    by (simp add: py_round_2_ge_100)
  show "100 \<le> float_round P (max x 100) 2" for x
    by (simp add: float_round_2_ge_100)
  show "100 \<le> np_round P (max x 100) 2" for x
    by (simp add: np_round_2_ge_100)
qed

theorem prices_at_least_100_witness:
  "\<exists>t. main (tape_platform (\<lambda>k. - 1000000)) (init 0 Map.empty) = Inr t \<and>
     100 \<le> base_price (flights_df t ! 0) \<and> 100 \<le> price_paid (bookings_df t ! 0)"
proof -
  obtain t where t: "main (tape_platform (\<lambda>k. - 1000000)) (init 0 Map.empty) = Inr t"
    using main_total by blast
  from prices_at_least_100 [OF t] main_first_rows [OF t]
  have "100 \<le> base_price (flights_df t ! 0) \<and> 100 \<le> price_paid (bookings_df t ! 0)"
    by blast
  then show ?thesis using t by blast
qed

subsection \<open>Flight dates\<close>

lemma last_day_of_2023: "datetime 2023 12 31 = datetime 2023 1 1 + 364"
  by code_simp

lemma flight_body_date_draw:
  "\<exists>g'. date (fst (flight_body P i g)) = datetime 2023 1 1 + fst (randint P 0 365 g')"
  by (simp add: flight_body_def Let_def case_prod_beta) blast

lemma flight_body_date_tape:
  "date (fst (flight_body (tape_platform (\<lambda>k. c)) i g)) = datetime 2023 1 1 + \<lfloor>c\<rfloor> mod 365"
  by (simp add: flight_body_def Let_def case_prod_beta np_choice_def tape_platform_def)

lemma main_flight_dates_tape:
  assumes "main (tape_platform (\<lambda>k. c)) s0 = Inr t" and "f \<in> set (flights_df t)"
  shows "date f = datetime 2023 1 1 + \<lfloor>c\<rfloor> mod 365"
  using main_flight_rows [OF assms] flight_body_date_tape by metis

text \<open>
Claim C6. With a generator that honours its documented ranges, every flight of a
  completed run has the date January 1, 2023 plus the script's \<open>randint(0, 365)\<close> draw,
  an integer from 0 to 364, so the date lies from 2023-01-01 to 2023-12-31 inclusive.
  Both endpoints are reached: one lawful generator puts every flight on 2023-01-01,
  another puts every flight on 2023-12-31.
\<close>

theorem flight_dates_in_2023:
  "(rng_ok P \<and> main P s0 = Inr t \<and> f \<in> set (flights_df t) \<longrightarrow>
      (\<exists>g. date f = datetime 2023 1 1 + fst (randint P 0 365 g) \<and>
           0 \<le> fst (randint P 0 365 g) \<and> fst (randint P 0 365 g) \<le> 364) \<and>
      datetime 2023 1 1 \<le> date f \<and> date f \<le> datetime 2023 12 31) \<and>
   rng_ok (tape_platform (\<lambda>k. 0)) \<and>
   (\<exists>t. main (tape_platform (\<lambda>k. 0)) s1 = Inr t \<and>
        (\<forall>f \<in> set (flights_df t). date f = datetime 2023 1 1)) \<and>
   rng_ok (tape_platform (\<lambda>k. 364)) \<and>
   (\<exists>t. main (tape_platform (\<lambda>k. 364)) s1 = Inr t \<and>
        (\<forall>f \<in> set (flights_df t). date f = datetime 2023 12 31))"
proof (intro conjI impI)
  assume a: "rng_ok P \<and> main P s0 = Inr t \<and> f \<in> set (flights_df t)"
  then obtain i g where "f = fst (flight_body P i g)" using main_flight_rows by metis
  then obtain g' where d: "date f = datetime 2023 1 1 + fst (randint P 0 365 g')"
    using flight_body_date_draw by metis
  have r: "0 \<le> fst (randint P 0 365 g') \<and> fst (randint P 0 365 g') \<le> 364"
    using rng_ok_randint [of P 0 365 g'] a by simp
  show "\<exists>g. date f = datetime 2023 1 1 + fst (randint P 0 365 g) \<and>
           0 \<le> fst (randint P 0 365 g) \<and> fst (randint P 0 365 g) \<le> 364"
    using d r by blast
  show "datetime 2023 1 1 \<le> date f" using d r by simp
  show "date f \<le> datetime 2023 12 31" using d r by (simp add: last_day_of_2023)
next
  show "rng_ok (tape_platform (\<lambda>k. 0))" by (rule rng_ok_tape)
  show "rng_ok (tape_platform (\<lambda>k. 364))" by (rule rng_ok_tape)
  obtain t where t: "main (tape_platform (\<lambda>k. 0)) s1 = Inr t" using main_total by blast
  have "\<forall>f \<in> set (flights_df t). date f = datetime 2023 1 1"
    using main_flight_dates_tape [OF t] by simp
  then show "\<exists>t. main (tape_platform (\<lambda>k. 0)) s1 = Inr t \<and>
        (\<forall>f \<in> set (flights_df t). date f = datetime 2023 1 1)" using t by blast
  obtain t' where t': "main (tape_platform (\<lambda>k. 364)) s1 = Inr t'" using main_total by blast
  have "\<forall>f \<in> set (flights_df t'). date f = datetime 2023 12 31"
    using main_flight_dates_tape [OF t'] by (simp add: last_day_of_2023)
  then show "\<exists>t. main (tape_platform (\<lambda>k. 364)) s1 = Inr t \<and>
        (\<forall>f \<in> set (flights_df t). date f = datetime 2023 12 31)" using t' by blast
qed

theorem flight_dates_in_2023_witness:
  "\<exists>t. main (tape_platform (\<lambda>k. 364)) (init 0 Map.empty) = Inr t \<and>
     rng_ok (tape_platform (\<lambda>k. 364)) \<and>
     flights_df t ! 0 \<in> set (flights_df t) \<and>
     datetime 2023 1 1 \<le> date (flights_df t ! 0) \<and>
     date (flights_df t ! 0) \<le> datetime 2023 12 31"
proof -
  obtain t where t: "main (tape_platform (\<lambda>k. 364)) (init 0 Map.empty) = Inr t"
    using main_total by blast
  note ok = rng_ok_tape [of "\<lambda>k. 364"]
  note m = main_first_rows(1) [OF t]
  from flight_dates_in_2023 [of "tape_platform (\<lambda>k. 364)" "init 0 Map.empty" t "flights_df t ! 0"]
  have "datetime 2023 1 1 \<le> date (flights_df t ! 0) \<and> date (flights_df t ! 0) \<le> datetime 2023 12 31"
    using ok t m by blast
  then show ?thesis using ok t m by blast
qed

subsection \<open>Bookings reference existing rows\<close>

lemma booking_body_sampled:
  assumes "rng_ok P" and "booking_body P fl cu i g = Inr (b, g')"
  shows "\<exists>f g1 c g2. df_sample1 P fl g = Inr (f, g1) \<and> df_sample1 P cu g1 = Inr (c, g2) \<and>
           f \<in> set fl \<and> c \<in> set cu \<and>
           booking.flight_id b = flight.flight_id f \<and>
           booking.customer_id b = customer.customer_id c \<and>
           advance_days b = fst (randint P 1 90 g2) \<and>
           booking_date b = date f - advance_days b"
proof -
  from assms(2) obtain f g1 where f: "df_sample1 P fl g = Inr (f, g1)"
    by (cases "df_sample1 P fl g") (auto simp: booking_body_def)
  from assms(2) f obtain c g2 where c: "df_sample1 P cu g1 = Inr (c, g2)"
    by (cases "df_sample1 P cu g1") (auto simp: booking_body_def)
  have "booking.flight_id b = flight.flight_id f \<and>
        booking.customer_id b = customer.customer_id c \<and>
        advance_days b = fst (randint P 1 90 g2) \<and>
        booking_date b = date f - advance_days b"
    using assms(2) f c by (auto simp: booking_body_def Let_def case_prod_beta)
  moreover have "f \<in> set fl" using assms(1) f by (rule df_sample1_mem)
  moreover have "c \<in> set cu" using assms(1) c by (rule df_sample1_mem)
  ultimately show ?thesis using f c by blast
qed

lemma same_id_same_flight:
  assumes "distinct (map flight.flight_id fl)" and "f \<in> set fl" and "f' \<in> set fl"
    and "flight.flight_id f = flight.flight_id f'"
  shows "f = f'"
  using assms by (meson distinct_map inj_on_def)

lemma same_id_same_customer:
  assumes "distinct (map customer.customer_id cu)" and "c \<in> set cu" and "c' \<in> set cu"
    and "customer.customer_id c = customer.customer_id c'"
  shows "c = c'"
  using assms by (meson distinct_map inj_on_def)

text \<open>
Claim C4. With a generator that honours its documented ranges, every booking of a
  completed run carries the \<open>flight_id\<close> of a row of the final flights table and the
  \<open>customer_id\<close> of a row of the final customers table: the two identifiers are copied
  from the rows that two successive calls of \<open>sample(1)\<close> return, the first on the whole
  flights table and the second on the whole customers table (so a row can be drawn for
  any number of bookings).
\<close>

theorem booking_references_exist:
  "rng_ok P \<Longrightarrow> main P s0 = Inr t \<Longrightarrow> b \<in> set (bookings_df t) \<Longrightarrow>
     booking.flight_id b \<in> flight.flight_id ` set (flights_df t) \<and>
     booking.customer_id b \<in> customer.customer_id ` set (customers_df t) \<and>
     (\<exists>g f g1 c g2.
        df_sample1 P (flights_df t) g = Inr (f, g1) \<and>
        df_sample1 P (customers_df t) g1 = Inr (c, g2) \<and>
        booking.flight_id b = flight.flight_id f \<and>
        booking.customer_id b = customer.customer_id c)"
proof -
  assume ok: "rng_ok P" and t: "main P s0 = Inr t" and b: "b \<in> set (bookings_df t)"
  from main_booking_rows [OF t b] obtain i g g' where
    "booking_body P (flights_df t) (customers_df t) i g = Inr (b, g')" by blast
  from booking_body_sampled [OF ok this] obtain f g1 c g2 where
    "df_sample1 P (flights_df t) g = Inr (f, g1)" "df_sample1 P (customers_df t) g1 = Inr (c, g2)"
    "f \<in> set (flights_df t)" "c \<in> set (customers_df t)"
    "booking.flight_id b = flight.flight_id f" "booking.customer_id b = customer.customer_id c"
    by blast
  then show ?thesis by blast
qed

theorem booking_references_exist_witness:
  "\<exists>t. main (tape_platform (tape_of [])) (init 0 Map.empty) = Inr t \<and>
     rng_ok (tape_platform (tape_of [])) \<and>
     bookings_df t ! 0 \<in> set (bookings_df t) \<and>
     booking.flight_id (bookings_df t ! 0) \<in> flight.flight_id ` set (flights_df t) \<and>
     booking.customer_id (bookings_df t ! 0) \<in> customer.customer_id ` set (customers_df t)"
proof -
  obtain t where t: "main (tape_platform (tape_of [])) (init 0 Map.empty) = Inr t"
    using main_total by blast
  note ok = rng_ok_tape [of "tape_of []"]
  note m = main_first_rows(3) [OF t]
  from booking_references_exist [OF ok t m] ok t m show ?thesis by blast
qed

subsection \<open>Lead time and booking date\<close>

lemma main_booking_flight:
  assumes "rng_ok P" and "main P s0 = Inr t" and "b \<in> set (bookings_df t)"
  obtains f g where "f \<in> set (flights_df t)" "flight.flight_id f = booking.flight_id b"
    "advance_days b = fst (randint P 1 90 g)" "booking_date b = date f - advance_days b"
proof -
  from main_booking_rows [OF assms(2,3)] obtain i g g' where
    "booking_body P (flights_df t) (customers_df t) i g = Inr (b, g')" by blast
  from booking_body_sampled [OF assms(1) this] show ?thesis using that by metis
qed

lemma booking_body_lead_tape:
  assumes "booking_body (tape_platform (\<lambda>k. c)) fl cu i g = Inr (b, g')"
  shows "advance_days b = 1 + \<lfloor>c\<rfloor> mod 89"
proof -
  from booking_body_sampled [OF rng_ok_tape assms] obtain g2 where
    "advance_days b = fst (randint (tape_platform (\<lambda>k. c)) 1 90 g2)" by blast
  then show ?thesis by (simp add: tape_platform_def)
qed

lemma main_lead_tape:
  assumes "main (tape_platform (\<lambda>k. c)) s0 = Inr t" and "b \<in> set (bookings_df t)"
  shows "advance_days b = 1 + \<lfloor>c\<rfloor> mod 89"
  using main_booking_rows [OF assms] booking_body_lead_tape by metis

text \<open>
Claim C3. With a generator that honours its documented ranges, every booking of a
  completed run has as \<open>advance_days\<close> the script's \<open>randint(1, 90)\<close> draw, an integer from
  1 to 89. The booking references a flight of the table, and for the flight it
  references (identifiers being distinct, there is exactly one) \<open>booking_date\<close> is that
  flight's date minus exactly \<open>advance_days\<close> days, hence strictly earlier. Every lead time
  from 1 to 89 occurs: for each there is a lawful generator under which all bookings
  have it.
\<close>

theorem booking_lead_time:
  "rng_ok P \<Longrightarrow> main P s0 = Inr t \<Longrightarrow> b \<in> set (bookings_df t) \<Longrightarrow>
     (\<exists>g. advance_days b = fst (randint P 1 90 g)) \<and>
     1 \<le> advance_days b \<and> advance_days b \<le> 89 \<and>
     (\<exists>f \<in> set (flights_df t). flight.flight_id f = booking.flight_id b) \<and>
     (\<forall>f \<in> set (flights_df t). flight.flight_id f = booking.flight_id b \<longrightarrow>
        booking_date b = date f - advance_days b \<and> booking_date b < date f) \<and>
     (\<forall>d. 1 \<le> d \<and> d \<le> 89 \<longrightarrow>
        rng_ok (tape_platform (\<lambda>k. of_int (d - 1))) \<and>
        (\<exists>t'. main (tape_platform (\<lambda>k. of_int (d - 1))) s1 = Inr t' \<and>
           (\<forall>b' \<in> set (bookings_df t'). advance_days b' = d)))"
proof -
  assume ok: "rng_ok P" and t: "main P s0 = Inr t" and b: "b \<in> set (bookings_df t)"
  from main_booking_flight [OF ok t b] obtain f g where
    f: "f \<in> set (flights_df t)" "flight.flight_id f = booking.flight_id b"
    and d: "advance_days b = fst (randint P 1 90 g)"
    and bd: "booking_date b = date f - advance_days b" by blast
  have r: "1 \<le> advance_days b \<and> advance_days b \<le> 89"
    using rng_ok_randint [OF ok, of 1 90 g] d by simp
  have u: "booking_date b = date f' - advance_days b \<and> booking_date b < date f'"
    if "f' \<in> set (flights_df t)" "flight.flight_id f' = booking.flight_id b" for f'
  proof -
    have "f' = f"
      using same_id_same_flight [OF main_ids_distinct(1) [OF t] that(1) f(1)] that(2) f(2) by simp
    then show ?thesis using bd r by simp
  qed
  have reach: "rng_ok (tape_platform (\<lambda>k. of_int (d - 1))) \<and>
        (\<exists>t'. main (tape_platform (\<lambda>k. of_int (d - 1))) s1 = Inr t' \<and>
           (\<forall>b' \<in> set (bookings_df t'). advance_days b' = d))"
    if "1 \<le> d \<and> d \<le> 89" for d :: int
  proof -
    obtain t' where t': "main (tape_platform (\<lambda>k. of_int (d - 1))) s1 = Inr t'"
      using main_total by blast
    have "advance_days b' = d" if "b' \<in> set (bookings_df t')" for b'
      using main_lead_tape [OF t' that] \<open>1 \<le> d \<and> d \<le> 89\<close> by simp
    then show ?thesis using t' rng_ok_tape by blast
  qed
  show ?thesis using f d r u reach by blast
qed

theorem booking_lead_time_witness:
  "\<exists>t. main (tape_platform (\<lambda>k. 88)) (init 0 Map.empty) = Inr t \<and>
     rng_ok (tape_platform (\<lambda>k. 88)) \<and>
     bookings_df t ! 0 \<in> set (bookings_df t) \<and>
     1 \<le> advance_days (bookings_df t ! 0) \<and> advance_days (bookings_df t ! 0) \<le> 89 \<and>
     (\<exists>f \<in> set (flights_df t). flight.flight_id f = booking.flight_id (bookings_df t ! 0) \<and>
        booking_date (bookings_df t ! 0) < date f)"
proof -
  obtain t where t: "main (tape_platform (\<lambda>k. 88)) (init 0 Map.empty) = Inr t"
    using main_total by blast
  note ok = rng_ok_tape [of "\<lambda>k. 88"]
  note m = main_first_rows(3) [OF t]
  from booking_lead_time [OF ok t m] ok t m show ?thesis by blast
qed

subsection \<open>Range of booking dates\<close>

lemma main_flight_date_range:
  assumes "rng_ok P" and "main P s0 = Inr t" and "f \<in> set (flights_df t)"
  shows "datetime 2023 1 1 \<le> date f \<and> date f \<le> datetime 2023 1 1 + 364"
proof -
  from main_flight_rows [OF assms(2,3)] obtain i g where "f = fst (flight_body P i g)" by blast
  then obtain g' where "date f = datetime 2023 1 1 + fst (randint P 0 365 g')"
    using flight_body_date_draw by metis
  then show ?thesis using rng_ok_randint [OF assms(1), of 0 365 g'] by simp
qed

lemma main_booking_date_tape:
  assumes "main (tape_platform (\<lambda>k. c)) s0 = Inr t" and "b \<in> set (bookings_df t)"
  shows "booking_date b = datetime 2023 1 1 + \<lfloor>c\<rfloor> mod 365 - (1 + \<lfloor>c\<rfloor> mod 89)"
proof -
  from main_booking_flight [OF rng_ok_tape assms] obtain f where
    "f \<in> set (flights_df t)" "booking_date b = date f - advance_days b" by metis
  then show ?thesis
    using main_flight_dates_tape [OF assms(1)] main_lead_tape [OF assms] by simp
qed

lemma earliest_booking_date: "datetime 2022 10 4 = datetime 2023 1 1 - 89"
  by code_simp

lemma latest_booking_date: "datetime 2023 12 30 = datetime 2023 1 1 + 363"
  by code_simp

text \<open>
Claim C10. With a generator that honours its documented ranges, every booking of a
  completed run has its \<open>booking_date\<close> from 2022-10-04 (the earliest flight date,
  2023-01-01, minus the longest lead of 89 days) to 2023-12-30 (the latest flight date,
  2023-12-31, minus the shortest lead of 1 day). Both bounds are reached by lawful
  generators; under the first, every flight date lies in 2023 while every booking date
  falls before 2023-01-01.
\<close>

theorem booking_date_range:
  "(rng_ok P \<and> main P s0 = Inr t \<and> b \<in> set (bookings_df t) \<longrightarrow>
      datetime 2022 10 4 \<le> booking_date b \<and> booking_date b \<le> datetime 2023 12 30) \<and>
   datetime 2022 10 4 = datetime 2023 1 1 - 89 \<and>
   datetime 2023 12 30 = datetime 2023 12 31 - 1 \<and>
   rng_ok (tape_platform (\<lambda>k. 28835)) \<and>
   (\<exists>t. main (tape_platform (\<lambda>k. 28835)) s1 = Inr t \<and>
      (\<forall>f \<in> set (flights_df t). datetime 2023 1 1 \<le> date f \<and> date f \<le> datetime 2023 12 31) \<and>
      (\<forall>b \<in> set (bookings_df t).
         booking_date b = datetime 2022 10 4 \<and> booking_date b < datetime 2023 1 1)) \<and>
   rng_ok (tape_platform (\<lambda>k. 3649)) \<and>
   (\<exists>t. main (tape_platform (\<lambda>k. 3649)) s1 = Inr t \<and>
      (\<forall>b \<in> set (bookings_df t). booking_date b = datetime 2023 12 30))"
proof (intro conjI impI)
  assume a: "rng_ok P \<and> main P s0 = Inr t \<and> b \<in> set (bookings_df t)"
  then have ok: "rng_ok P" and t: "main P s0 = Inr t" and b: "b \<in> set (bookings_df t)"
    by simp_all
  from main_booking_flight [OF ok t b] obtain f g where
    f: "f \<in> set (flights_df t)" and d: "advance_days b = fst (randint P 1 90 g)"
    and bd: "booking_date b = date f - advance_days b" by metis
  have r: "1 \<le> advance_days b \<and> advance_days b \<le> 89"
    using rng_ok_randint [OF ok, of 1 90 g] d by simp
  note fr = main_flight_date_range [OF ok t f]
  show "datetime 2022 10 4 \<le> booking_date b" using bd r fr by (simp add: earliest_booking_date)
  show "booking_date b \<le> datetime 2023 12 30" using bd r fr by (simp add: latest_booking_date)
next
  show "datetime 2022 10 4 = datetime 2023 1 1 - 89" by (rule earliest_booking_date)
  show "datetime 2023 12 30 = datetime 2023 12 31 - 1"
    by (simp add: latest_booking_date last_day_of_2023)
  show "rng_ok (tape_platform (\<lambda>k. 28835))" by (rule rng_ok_tape)
  show "rng_ok (tape_platform (\<lambda>k. 3649))" by (rule rng_ok_tape)
  obtain t where t: "main (tape_platform (\<lambda>k. 28835)) s1 = Inr t" using main_total by blast
  have "datetime 2023 1 1 \<le> date f \<and> date f \<le> datetime 2023 12 31"
    if "f \<in> set (flights_df t)" for f
    using main_flight_date_range [OF rng_ok_tape t that] by (simp add: last_day_of_2023)
  moreover have "booking_date b = datetime 2022 10 4 \<and> booking_date b < datetime 2023 1 1"
    if "b \<in> set (bookings_df t)" for b
    using main_booking_date_tape [OF t that] by (simp add: earliest_booking_date)
  ultimately show "\<exists>t. main (tape_platform (\<lambda>k. 28835)) s1 = Inr t \<and>
      (\<forall>f \<in> set (flights_df t). datetime 2023 1 1 \<le> date f \<and> date f \<le> datetime 2023 12 31) \<and>
      (\<forall>b \<in> set (bookings_df t).
         booking_date b = datetime 2022 10 4 \<and> booking_date b < datetime 2023 1 1)"
    using t by blast
  obtain t' where t': "main (tape_platform (\<lambda>k. 3649)) s1 = Inr t'" using main_total by blast
  have "booking_date b = datetime 2023 12 30" if "b \<in> set (bookings_df t')" for b
    using main_booking_date_tape [OF t' that] by (simp add: latest_booking_date)
  then show "\<exists>t. main (tape_platform (\<lambda>k. 3649)) s1 = Inr t \<and>
      (\<forall>b \<in> set (bookings_df t). booking_date b = datetime 2023 12 30)"
    using t' by blast
qed

theorem booking_date_range_witness:
  "\<exists>t. main (tape_platform (\<lambda>k. 28835)) (init 0 Map.empty) = Inr t \<and>
     rng_ok (tape_platform (\<lambda>k. 28835)) \<and>
     bookings_df t ! 0 \<in> set (bookings_df t) \<and>
     datetime 2022 10 4 \<le> booking_date (bookings_df t ! 0) \<and>
     booking_date (bookings_df t ! 0) \<le> datetime 2023 12 30"
proof -
  obtain t where t: "main (tape_platform (\<lambda>k. 28835)) (init 0 Map.empty) = Inr t"
    using main_total by blast
  note ok = rng_ok_tape [of "\<lambda>k. 28835"]
  note m = main_first_rows(3) [OF t]
  from booking_date_range [of "tape_platform (\<lambda>k. 28835)" "init 0 Map.empty" t "bookings_df t ! 0"]
  have "datetime 2022 10 4 \<le> booking_date (bookings_df t ! 0) \<and>
        booking_date (bookings_df t ! 0) \<le> datetime 2023 12 30"
    using ok t m by blast
  then show ?thesis using ok t m by blast
qed

subsection \<open>Determinism\<close>

lemma main_result:
  assumes "for_range n_flights (\<lambda>i g. Inr (flight_body P i g)) (seed P 42) = Inr (fl, g1)"
    and "for_range n_customers (\<lambda>i g. Inr (customer_body P i g)) g1 = Inr (cu, g2)"
    and "for_range n_bookings (booking_body P fl cu) g2 = Inr (bk, g3)"
  shows "\<exists>t. main P s0 = Inr t \<and> rng t = g3 \<and> flights_df t = fl \<and> customers_df t = cu \<and>
           bookings_df t = bk \<and>
           files t = (files s0)(''../data/flights.csv'' \<mapsto> flights_csv P fl,
                               ''../data/customers.csv'' \<mapsto> customers_csv P cu,
                               ''../data/bookings.csv'' \<mapsto> bookings_csv P bk) \<and>
           printed t = printed (summary_phase
             \<lparr>rng = g3, flights_df = fl, customers_df = cu, bookings_df = bk,
              files = Map.empty, printed = None\<rparr>)"
  using assms
  by (simp add: main_def seed_phase_def flights_phase_def customers_phase_def bookings_phase_def
      summary_phase_def)

lemma main_loops:
  "\<exists>fl g1 cu g2 bk g3.
    for_range n_flights (\<lambda>i g. Inr (flight_body P i g)) (seed P 42) = Inr (fl, g1) \<and>
    for_range n_customers (\<lambda>i g. Inr (customer_body P i g)) g1 = Inr (cu, g2) \<and>
    for_range n_bookings (booking_body P fl cu) g2 = Inr (bk, g3)"
proof -
  obtain t where t: "main P (init (seed P 0) Map.empty) = Inr t" using main_total by blast
  from main_run [OF t] show ?thesis by metis
qed

text \<open>
Claim C8. Two runs on the same platform (the same generator and CSV writer) produce
  the same output whatever state they start from: the generator state that was current
  before the script ran, the variables and the files already present have no influence,
  because the script installs the state of seed 42 before its first draw. Both runs
  complete, their three tables are equal, the generator ends in the same state, the
  same summary is printed, and each of the three CSV files holds the writer's text of
  the corresponding table, the same in both runs.
\<close>

theorem run_is_deterministic:
  "\<exists>t1 t2. main P s1 = Inr t1 \<and> main P s2 = Inr t2 \<and>
     flights_df t1 = flights_df t2 \<and> customers_df t1 = customers_df t2 \<and>
     bookings_df t1 = bookings_df t2 \<and> rng t1 = rng t2 \<and> printed t1 = printed t2 \<and>
     files t1 ''../data/flights.csv'' = Some (flights_csv P (flights_df t1)) \<and>
     files t1 ''../data/customers.csv'' = Some (customers_csv P (customers_df t1)) \<and>
     files t1 ''../data/bookings.csv'' = Some (bookings_csv P (bookings_df t1)) \<and>
     files t2 ''../data/flights.csv'' = files t1 ''../data/flights.csv'' \<and>
     files t2 ''../data/customers.csv'' = files t1 ''../data/customers.csv'' \<and>
     files t2 ''../data/bookings.csv'' = files t1 ''../data/bookings.csv''"
proof -
  obtain fl g1 cu g2 bk g3 where
    l: "for_range n_flights (\<lambda>i g. Inr (flight_body P i g)) (seed P 42) = Inr (fl, g1)"
    "for_range n_customers (\<lambda>i g. Inr (customer_body P i g)) g1 = Inr (cu, g2)"
    "for_range n_bookings (booking_body P fl cu) g2 = Inr (bk, g3)"
    using main_loops [of P] by blast
  from main_result [OF l, of s1] obtain t1 where
    t1: "main P s1 = Inr t1" "rng t1 = g3" "flights_df t1 = fl" "customers_df t1 = cu"
      "bookings_df t1 = bk"
      "files t1 = (files s1)(''../data/flights.csv'' \<mapsto> flights_csv P fl,
                               ''../data/customers.csv'' \<mapsto> customers_csv P cu,
                               ''../data/bookings.csv'' \<mapsto> bookings_csv P bk)"
      "printed t1 = printed (summary_phase
             \<lparr>rng = g3, flights_df = fl, customers_df = cu, bookings_df = bk,
              files = Map.empty, printed = None\<rparr>)"
    by blast
  from main_result [OF l, of s2] obtain t2 where
    t2: "main P s2 = Inr t2" "rng t2 = g3" "flights_df t2 = fl" "customers_df t2 = cu"
      "bookings_df t2 = bk"
      "files t2 = (files s2)(''../data/flights.csv'' \<mapsto> flights_csv P fl,
                               ''../data/customers.csv'' \<mapsto> customers_csv P cu,
                               ''../data/bookings.csv'' \<mapsto> bookings_csv P bk)"
      "printed t2 = printed (summary_phase
             \<lparr>rng = g3, flights_df = fl, customers_df = cu, bookings_df = bk,
              files = Map.empty, printed = None\<rparr>)"
    by blast
  show ?thesis
    by (rule exI [of _ t1], rule exI [of _ t2]) (simp add: t1 t2)
qed

subsection \<open>Each table is written once\<close>

lemma flights_phase_frame:
  "flights_phase P s = Inr s' \<Longrightarrow>
     customers_df s' = customers_df s \<and> bookings_df s' = bookings_df s \<and> printed s' = printed s"
  by (auto simp: flights_phase_def split: sum.splits prod.splits)

lemma customers_phase_frame:
  "customers_phase P s = Inr s' \<Longrightarrow>
     flights_df s' = flights_df s \<and> bookings_df s' = bookings_df s \<and> printed s' = printed s"
  by (auto simp: customers_phase_def split: sum.splits prod.splits)

lemma bookings_phase_frame:
  "bookings_phase P s = Inr s' \<Longrightarrow>
     flights_df s' = flights_df s \<and> customers_df s' = customers_df s \<and> printed s' = printed s"
  by (auto simp: bookings_phase_def split: sum.splits prod.splits)

lemma summary_phase_frame:
  "flights_df (summary_phase s) = flights_df s \<and> customers_df (summary_phase s) = customers_df s \<and>
   bookings_df (summary_phase s) = bookings_df s \<and> rng (summary_phase s) = rng s \<and>
   files (summary_phase s) = files s"
  by (simp add: summary_phase_def)

lemma seed_phase_frame:
  "flights_df (seed_phase P s) = flights_df s \<and> customers_df (seed_phase P s) = customers_df s \<and>
   bookings_df (seed_phase P s) = bookings_df s \<and> files (seed_phase P s) = files s"
  by (simp add: seed_phase_def)

lemma main_phases:
  assumes "main P s0 = Inr t"
  obtains sa sb sc where "flights_phase P (seed_phase P s0) = Inr sa"
    "customers_phase P sa = Inr sb" "bookings_phase P sb = Inr sc" "t = summary_phase sc"
  using assms by (auto simp: main_def split: sum.splits)

text \<open>
Claim C9. Each table is written by one pass only. The bookings pass leaves the
  flights and customers tables as they were, and the summary step leaves all three
  tables as they were; likewise the flights pass writes neither customers nor bookings,
  the customers pass neither flights nor bookings, and seeding writes no table. So in a
  completed run each table of the final state is the one its own pass assigned. Within
  a pass rows are only appended: the rows present after \<open>m\<close> iterations are the first
  \<open>m\<close> rows of the finished table, unchanged.
\<close>

theorem tables_are_write_once:
  "(bookings_phase P s = Inr s' \<longrightarrow>
      flights_df s' = flights_df s \<and> customers_df s' = customers_df s) \<and>
   (flights_df (summary_phase s) = flights_df s \<and>
    customers_df (summary_phase s) = customers_df s \<and>
    bookings_df (summary_phase s) = bookings_df s) \<and>
   (flights_phase P s = Inr s' \<longrightarrow>
      customers_df s' = customers_df s \<and> bookings_df s' = bookings_df s) \<and>
   (customers_phase P s = Inr s' \<longrightarrow>
      flights_df s' = flights_df s \<and> bookings_df s' = bookings_df s) \<and>
   (flights_df (seed_phase P s) = flights_df s \<and>
    customers_df (seed_phase P s) = customers_df s \<and>
    bookings_df (seed_phase P s) = bookings_df s) \<and>
   (main P s0 = Inr t \<longrightarrow>
      (\<exists>sa sb sc.
         flights_phase P (seed_phase P s0) = Inr sa \<and> customers_phase P sa = Inr sb \<and>
         bookings_phase P sb = Inr sc \<and> t = summary_phase sc \<and>
         flights_df sb = flights_df sa \<and> flights_df sc = flights_df sa \<and>
         flights_df t = flights_df sa \<and>
         customers_df sc = customers_df sb \<and> customers_df t = customers_df sb \<and>
         bookings_df t = bookings_df sc)) \<and>
   (for_range n body g = Inr (rows, g') \<and> m \<le> n \<longrightarrow>
      (\<exists>gm. for_range m body g = Inr (take m rows, gm)))"
proof -
  have A: "bookings_phase P s = Inr s' \<longrightarrow>
      flights_df s' = flights_df s \<and> customers_df s' = customers_df s"
    using bookings_phase_frame [of P s s'] by blast
  have B: "flights_df (summary_phase s) = flights_df s \<and>
    customers_df (summary_phase s) = customers_df s \<and>
    bookings_df (summary_phase s) = bookings_df s"
    using summary_phase_frame [of s] by blast
  have C: "flights_phase P s = Inr s' \<longrightarrow>
      customers_df s' = customers_df s \<and> bookings_df s' = bookings_df s"
    using flights_phase_frame [of P s s'] by blast
  have D: "customers_phase P s = Inr s' \<longrightarrow>
      flights_df s' = flights_df s \<and> bookings_df s' = bookings_df s"
    using customers_phase_frame [of P s s'] by blast
  have E: "flights_df (seed_phase P s) = flights_df s \<and>
    customers_df (seed_phase P s) = customers_df s \<and>
    bookings_df (seed_phase P s) = bookings_df s"
    using seed_phase_frame [of P s] by blast
  have F: "main P s0 = Inr t \<longrightarrow>
      (\<exists>sa sb sc.
         flights_phase P (seed_phase P s0) = Inr sa \<and> customers_phase P sa = Inr sb \<and>
         bookings_phase P sb = Inr sc \<and> t = summary_phase sc \<and>
         flights_df sb = flights_df sa \<and> flights_df sc = flights_df sa \<and>
         flights_df t = flights_df sa \<and>
         customers_df sc = customers_df sb \<and> customers_df t = customers_df sb \<and>
         bookings_df t = bookings_df sc)"
  proof
    assume "main P s0 = Inr t"
    from main_phases [OF this] obtain sa sb sc where
      p: "flights_phase P (seed_phase P s0) = Inr sa" "customers_phase P sa = Inr sb"
        "bookings_phase P sb = Inr sc" "t = summary_phase sc" by blast
    have 1: "flights_df sb = flights_df sa" using customers_phase_frame [OF p(2)] by blast
    have 2: "flights_df sc = flights_df sa" using bookings_phase_frame [OF p(3)] 1 by simp
    have 3: "flights_df t = flights_df sa" using summary_phase_frame [of sc] p(4) 2 by simp
    have 4: "customers_df sc = customers_df sb" using bookings_phase_frame [OF p(3)] by blast
    have 5: "customers_df t = customers_df sb" using summary_phase_frame [of sc] p(4) 4 by simp
    have 6: "bookings_df t = bookings_df sc" using summary_phase_frame [of sc] p(4) by simp
    show "\<exists>sa sb sc.
         flights_phase P (seed_phase P s0) = Inr sa \<and> customers_phase P sa = Inr sb \<and>
         bookings_phase P sb = Inr sc \<and> t = summary_phase sc \<and>
         flights_df sb = flights_df sa \<and> flights_df sc = flights_df sa \<and>
         flights_df t = flights_df sa \<and>
         customers_df sc = customers_df sb \<and> customers_df t = customers_df sb \<and>
         bookings_df t = bookings_df sc"
      using p 1 2 3 4 5 6 by blast
  qed
  have G: "for_range n body g = Inr (rows, g') \<and> m \<le> n \<longrightarrow>
      (\<exists>gm. for_range m body g = Inr (take m rows, gm))"
    using for_range_prefix [of n body g rows g' m] by blast
  from A B C D E F G show ?thesis by blast
qed

theorem tables_are_write_once_witness:
  "\<exists>t sa sb sc.
     main (tape_platform (tape_of [])) (init 0 Map.empty) = Inr t \<and>
     flights_phase (tape_platform (tape_of [])) (seed_phase (tape_platform (tape_of [])) (init 0 Map.empty)) = Inr sa \<and>
     customers_phase (tape_platform (tape_of [])) sa = Inr sb \<and>
     bookings_phase (tape_platform (tape_of [])) sb = Inr sc \<and>
     t = summary_phase sc \<and>
     customers_df sa = [] \<and> bookings_df sa = [] \<and>
     flights_df sb = flights_df sa \<and> bookings_df sb = [] \<and>
     flights_df sc = flights_df sa \<and> customers_df sc = customers_df sb \<and>
     flights_df t = flights_df sa \<and> customers_df t = customers_df sb \<and>
     bookings_df t = bookings_df sc"
proof -
  let ?P = "tape_platform (tape_of [])"
  let ?s0 = "init (0 :: nat) Map.empty"
  obtain t where t: "main ?P ?s0 = Inr t" using main_total by blast
  note F = tables_are_write_once [where P = ?P and ?s0.0 = ?s0 and t = t,
      THEN conjunct2, THEN conjunct2, THEN conjunct2, THEN conjunct2, THEN conjunct2,
      THEN conjunct1, THEN mp, OF t]
  from F obtain sa sb sc where
    p: "flights_phase ?P (seed_phase ?P ?s0) = Inr sa" "customers_phase ?P sa = Inr sb"
      "bookings_phase ?P sb = Inr sc" "t = summary_phase sc"
    and q: "flights_df sb = flights_df sa" "flights_df sc = flights_df sa"
      "flights_df t = flights_df sa" "customers_df sc = customers_df sb"
      "customers_df t = customers_df sb" "bookings_df t = bookings_df sc"
    by (elim exE conjE)
  note C = tables_are_write_once [where P = ?P and s = "seed_phase ?P ?s0" and s' = sa,
      THEN conjunct2, THEN conjunct2, THEN conjunct1, THEN mp, OF p(1)]
  have a: "customers_df sa = []" "bookings_df sa = []"
    using C by (simp_all add: seed_phase_def init_def)
  note D = tables_are_write_once [where P = ?P and s = sa and s' = sb,
      THEN conjunct2, THEN conjunct2, THEN conjunct2, THEN conjunct1, THEN mp, OF p(2)]
  have b: "bookings_df sb = []" using D a by simp
  show ?thesis
    by (intro exI [of _ t] exI [of _ sa] exI [of _ sb] exI [of _ sc] conjI t p q a b)
qed

subsection \<open>Customers\<close>

lemma round_half_even_nearest:
  "\<bar>of_int (round_half_even x) - x\<bar> \<le> 1 / 2 \<and>
   (\<bar>of_int (round_half_even x) - x\<bar> = 1 / 2 \<longrightarrow> even (round_half_even x))"
proof -
  define f where "f = \<lfloor>x\<rfloor>"
  define d where "d = x - of_int f"
  have d: "0 \<le> d" "d < 1" unfolding d_def f_def by linarith+
  consider "d < 1 / 2" | "1 / 2 < d" | "d = 1 / 2" "even f" | "d = 1 / 2" "odd f"
    by fastforce
  then show ?thesis
  proof cases
    case 1
    then have r: "round_half_even x = f" by (simp add: round_half_even_def Let_def f_def d_def)
    have "\<bar>of_int (round_half_even x) - x\<bar> = d" using d by (simp add: r d_def)
    then show ?thesis using 1 by simp
  next
    case 2
    then have r: "round_half_even x = f + 1"
      by (simp add: round_half_even_def Let_def f_def d_def)
    have "\<bar>of_int (round_half_even x) - x\<bar> = 1 - d" using d by (simp add: r d_def)
    then show ?thesis using 2 by simp
  next
    case 3
    then have r: "round_half_even x = f" by (simp add: round_half_even_def Let_def f_def d_def)
    have "\<bar>of_int (round_half_even x) - x\<bar> = d" using d by (simp add: r d_def)
    then show ?thesis using 3 r by simp
  next
    case 4
    then have r: "round_half_even x = f + 1"
      by (simp add: round_half_even_def Let_def f_def d_def)
    have "\<bar>of_int (round_half_even x) - x\<bar> = 1 - d" using d by (simp add: r d_def)
    then show ?thesis using 4 r by simp
  qed
qed

lemma py_round_0: "py_round x 0 = of_int (round_half_even x)"
  by (simp add: py_round_def)

lemma np_choice_p_bernoulli_06:
  assumes "rng_ok P"
  shows "fst (np_choice_p P [0, 1] [0.4, 0.6] g) = bernoulli 0.6 (fst (random_sample P g))"
  using rng_ok_random_sample [OF assms, of g]
  by (simp add: np_choice_p_def case_prod_beta searchsorted_right_def bernoulli_def)

lemma np_choice_p_bernoulli_02:
  assumes "rng_ok P"
  shows "fst (np_choice_p P [0, 1] [0.8, 0.2] g) = bernoulli 0.2 (fst (random_sample P g))"
  using rng_ok_random_sample [OF assms, of g]
  by (simp add: np_choice_p_def case_prod_beta searchsorted_right_def bernoulli_def)

lemma snd_np_choice_p: "snd (np_choice_p P a p g) = snd (random_sample P g)"
  by (simp add: np_choice_p_def case_prod_beta)

lemma customer_body_draws:
  assumes "rng_ok P"
  shows "customer_body P i g = draw_customer spec_customer P i g"
  using np_choice_p_bernoulli_06 [OF assms] np_choice_p_bernoulli_02 [OF assms]
  by (simp add: customer_body_def draw_customer_def spec_customer_def Let_def case_prod_beta
      np_choice_def snd_np_choice_p home_cities_def)

lemma spec_customer_fields:
  "income (spec_customer i a x u j) = of_int (round_half_even (max x 25000)) \<and>
   \<bar>income (spec_customer i a x u j) - max x 25000\<bar> \<le> 1 / 2 \<and>
   is_business (spec_customer i a x u j) =
     (if max x 25000 > 80000 \<and> a > 30 then (if u < 0.4 then 0 else 1)
      else (if u < 0.8 then 0 else 1))"
  using round_half_even_nearest [of "max x 25000"]
  by (simp add: spec_customer_def Let_def py_round_0 bernoulli_def)

lemma customer_body_ranges:
  assumes "rng_ok P"
  shows "18 \<le> age (fst (customer_body P i g)) \<and> age (fst (customer_body P i g)) \<le> 69 \<and>
         25000 \<le> income (fst (customer_body P i g)) \<and>
         income (fst (customer_body P i g)) \<in> \<int> \<and>
         is_business (fst (customer_body P i g)) \<in> {0, 1} \<and>
         home_city (fst (customer_body P i g)) \<in> set home_cities"
proof -
  have a: "18 \<le> fst (randint P 18 70 g) \<and> fst (randint P 18 70 g) < 70"
    using rng_ok_randint [OF assms, of 18 70 g] by simp
  have c: "fst (np_choice P home_cities g') \<in> set home_cities" for g'
    using np_choice_mem [OF assms, of home_cities g'] by (simp add: home_cities_def)
  have b: "bernoulli p u \<in> {0, 1}" for p u by (simp add: bernoulli_def)
  let ?c = "fst (draw_customer spec_customer P i g)"
  have 1: "18 \<le> age ?c \<and> age ?c \<le> 69"
    using a by (simp add: draw_customer_def spec_customer_def Let_def case_prod_beta)
  have 2: "25000 \<le> income ?c"
    by (simp add: draw_customer_def spec_customer_def Let_def case_prod_beta py_round_0_ge_25000)
  have 3: "income ?c \<in> \<int>"
    by (simp add: draw_customer_def spec_customer_def Let_def case_prod_beta py_round_def)
  have 4: "is_business ?c \<in> {0, 1}"
    using b by (simp add: draw_customer_def spec_customer_def Let_def case_prod_beta)
  have "home_city ?c = fst (np_choice P home_cities (snd (random_sample P (snd (normal P 60000 20000 (snd (randint P 18 70 g)))))))"
    by (simp add: draw_customer_def spec_customer_def Let_def case_prod_beta np_choice_def
        home_cities_def)
  then have 5: "home_city ?c \<in> set home_cities" using c by simp
  show ?thesis
    unfolding customer_body_draws [OF assms] using 1 2 3 4 5 by blast
qed

text \<open>
Claim C7, as amended. With a generator that honours its documented ranges, every
  customer of a completed run has an age from 18 to 69 (the \<open>randint(18, 70)\<close> draw), an
  income that is the \<open>normal(60000, 20000)\<close> draw floored at 25000 and rounded to a whole
  number (the nearest integer, a tie going to the even one), hence at least 25000, a
  flag \<open>is_business\<close> that is 0 or 1, and a home city among the 5 fixed cities (indexed by
  a \<open>randint(0, 5)\<close> draw). The flag is the Bernoulli(0.6) outcome of its unit draw (1 from
  0.4 upwards) when the floored income, before it is rounded, exceeds 80000 and the age
  exceeds 30, and the Bernoulli(0.2) outcome (1 from 0.8 upwards) otherwise: each row of
  the table is \<open>spec_customer\<close> of the four draws, made in this order. No floating-point
  product or sum enters: the draw is compared and rounded as numpy returns it.

  As the claim words it, the test is on the income the row records (floored and
  rounded); the counterexample after the witness shows a lawful draw on which that
  reading and the script disagree.
\<close>

theorem customer_fields:
  "rng_ok P \<Longrightarrow> main P s0 = Inr t \<Longrightarrow> c \<in> set (customers_df t) \<Longrightarrow>
     18 \<le> age c \<and> age c \<le> 69 \<and> 25000 \<le> income c \<and> income c \<in> \<int> \<and>
     is_business c \<in> {0, 1} \<and> home_city c \<in> set home_cities \<and> length home_cities = 5 \<and>
     (\<exists>i g. i < n_customers \<and> c = fst (draw_customer spec_customer P i g)) \<and>
     (\<forall>i g. customer_body P i g = draw_customer spec_customer P i g) \<and>
     (\<forall>i a x u j.
        income (spec_customer i a x u j) = of_int (round_half_even (max x 25000)) \<and>
        \<bar>income (spec_customer i a x u j) - max x 25000\<bar> \<le> 1 / 2 \<and>
        is_business (spec_customer i a x u j) =
          (if max x 25000 > 80000 \<and> a > 30 then (if u < 0.4 then 0 else 1)
           else (if u < 0.8 then 0 else 1)))"
proof -
  assume ok: "rng_ok P" and t: "main P s0 = Inr t" and c: "c \<in> set (customers_df t)"
  from main_customer_rows [OF t c] obtain i g where
    i: "i < n_customers" and cb: "c = fst (customer_body P i g)" by blast
  have r: "18 \<le> age c \<and> age c \<le> 69 \<and> 25000 \<le> income c \<and> income c \<in> \<int> \<and>
     is_business c \<in> {0, 1} \<and> home_city c \<in> set home_cities"
    unfolding cb by (rule customer_body_ranges [OF ok])
  have d: "\<exists>i g. i < n_customers \<and> c = fst (draw_customer spec_customer P i g)"
    using i cb customer_body_draws [OF ok] by metis
  have e: "\<forall>i g. customer_body P i g = draw_customer spec_customer P i g"
    using customer_body_draws [OF ok] by blast
  have l: "length home_cities = 5" by (simp add: home_cities_def)
  have f: "\<forall>i a x u j.
        income (spec_customer i a x u j) = of_int (round_half_even (max x 25000)) \<and>
        \<bar>income (spec_customer i a x u j) - max x 25000\<bar> \<le> 1 / 2 \<and>
        is_business (spec_customer i a x u j) =
          (if max x 25000 > 80000 \<and> a > 30 then (if u < 0.4 then 0 else 1)
           else (if u < 0.8 then 0 else 1))"
    using spec_customer_fields by blast
  from r d e l f show ?thesis by blast
qed

theorem customer_fields_witness:
  "\<exists>t. main (tape_platform (tape_of [])) (init 0 Map.empty) = Inr t \<and>
     rng_ok (tape_platform (tape_of [])) \<and>
     customers_df t ! 0 \<in> set (customers_df t) \<and>
     18 \<le> age (customers_df t ! 0) \<and> age (customers_df t ! 0) \<le> 69 \<and>
     25000 \<le> income (customers_df t ! 0) \<and>
     is_business (customers_df t ! 0) \<in> {0, 1}"
proof -
  obtain t where t: "main (tape_platform (tape_of [])) (init 0 Map.empty) = Inr t"
    using main_total by blast
  note ok = rng_ok_tape [of "tape_of []"]
  note m = main_first_rows(2) [OF t]
  from customer_fields [OF ok t m] ok t m show ?thesis by blast
qed

text \<open>
  The draws age 40, Gaussian draw 80000.25 and unit draw 0.5: the script decides the
  flag on 80000.25, which exceeds 80000, and the Bernoulli(0.6) outcome of 0.5 is 1. The
  row records the income 80000, which does not exceed 80000; read on the recorded
  income, the flag would be the Bernoulli(0.2) outcome of 0.5, which is 0. All three
  values are doubles.
\<close>

theorem customer_flag_counterexample:
  "rng_ok (tape_platform (tape_of [22, 80000.25, 0.5, 3])) \<and>
   customer_body (tape_platform (tape_of [22, 80000.25, 0.5, 3])) 0 0 \<noteq>
     draw_customer spec_customer_stated (tape_platform (tape_of [22, 80000.25, 0.5, 3])) 0 0 \<and>
   age (fst (customer_body (tape_platform (tape_of [22, 80000.25, 0.5, 3])) 0 0)) = 40 \<and>
   income (fst (customer_body (tape_platform (tape_of [22, 80000.25, 0.5, 3])) 0 0)) = 80000 \<and>
   is_business (fst (customer_body (tape_platform (tape_of [22, 80000.25, 0.5, 3])) 0 0)) = 1 \<and>
   is_business (fst (draw_customer spec_customer_stated
      (tape_platform (tape_of [22, 80000.25, 0.5, 3])) 0 0)) = 0"
proof -
  let ?P = "tape_platform (tape_of [22, 80000.25, 0.5, 3])"
  have ok: "rng_ok ?P" by (rule rng_ok_tape)
  have body: "fst (customer_body ?P 0 0) = fst (draw_customer spec_customer ?P 0 0)"
    by (subst customer_body_draws [OF ok]) (rule refl)
  have a: "age (fst (draw_customer spec_customer ?P 0 0)) = 40"
    by (simp add: draw_customer_def spec_customer_def case_prod_beta Let_def
        tape_platform_def tape_of_def)
  have i: "income (fst (draw_customer spec_customer ?P 0 0)) = 80000"
    by (simp add: draw_customer_def spec_customer_def case_prod_beta Let_def
        tape_platform_def tape_of_def py_round_def round_half_even_def)
  have b1: "is_business (fst (draw_customer spec_customer ?P 0 0)) = 1"
    by (simp add: draw_customer_def spec_customer_def case_prod_beta Let_def
        tape_platform_def tape_of_def bernoulli_def frac_def)
  have b0: "is_business (fst (draw_customer spec_customer_stated ?P 0 0)) = 0"
    by (simp add: draw_customer_def spec_customer_stated_def case_prod_beta Let_def
        tape_platform_def tape_of_def bernoulli_def frac_def py_round_def round_half_even_def)
  have ne: "customer_body ?P 0 0 \<noteq> draw_customer spec_customer_stated ?P 0 0"
    using b0 b1 body by auto
  show ?thesis unfolding body using ok ne a i b1 b0 by (intro conjI)
qed

subsection \<open>Price of a booking\<close>

lemma uniform_ok_tape: "uniform_ok (tape_platform t)"
proof -
  have "low \<le> low + (high - low) * frac x \<and> low + (high - low) * frac x \<le> high"
    if "low \<le> high" for low high x :: real
  proof -
    have f: "0 \<le> frac x" "frac x \<le> 1" using frac_lt_1 [of x] by (simp_all add: less_imp_le)
    have "0 \<le> (high - low) * frac x" using that f by simp
    moreover have "(high - low) * frac x \<le> (high - low) * 1"
      using that f by (intro mult_left_mono) simp_all
    ultimately show ?thesis by simp
  qed
  then show ?thesis by (simp add: uniform_ok_def tape_platform_def)
qed

lemma uniform_factor_range:
  assumes "uniform_ok P"
  shows "1.0 \<le> fst (uniform P 1.0 1.4 g) \<and> fst (uniform P 1.0 1.4 g) \<le> 1.4"
proof -
  have "(1.0 :: real) \<le> 1.4" by simp
  then show ?thesis using assms unfolding uniform_ok_def by blast
qed

lemma spec_band_cases:
  "(d < 7 \<longrightarrow> spec_band P x d = fmul P x (dbl P 1.3)) \<and>
   (d > 60 \<longrightarrow> spec_band P x d = fmul P x (dbl P 0.85)) \<and>
   (7 \<le> d \<and> d \<le> 60 \<longrightarrow> spec_band P x d = x) \<and> \<not> (d < 7 \<and> d > 60)"
  by (simp add: spec_band_def)

lemma spec_price_unfolded:
  "spec_price P x d business factor noise =
     np_round P (max (fmul P (if business = 1 then fmul P (spec_band P x d) factor
                              else spec_band P x d) noise) 100) 2"
  by (simp add: spec_price_def Let_def)

lemma np_round_2: "np_round P x 2 = dbl P (of_int (round_half_even (dbl P (x * 100))) / 100)"
  by (simp add: np_round_def)

lemma booking_body_price_steps:
  assumes "rng_ok P" and "booking_body P fl cu i g0 = Inr (b, g6)"
  shows "\<exists>f g1 c g2 g3 g4.
           df_sample1 P fl g0 = Inr (f, g1) \<and> df_sample1 P cu g1 = Inr (c, g2) \<and>
           f \<in> set fl \<and> c \<in> set cu \<and>
           booking.flight_id b = flight.flight_id f \<and>
           booking.customer_id b = customer.customer_id c \<and>
           advance_days b = fst (randint P 1 90 g2) \<and> g3 = snd (randint P 1 90 g2) \<and>
           g4 = (if is_business c = 1 then snd (uniform P 1.0 1.4 g3) else g3) \<and>
           price_paid b = spec_price P (base_price f) (advance_days b) (is_business c)
             (fst (uniform P 1.0 1.4 g3)) (fst (normal P 1.0 0.1 g4))"
proof -
  from assms(2) obtain f g1 where f: "df_sample1 P fl g0 = Inr (f, g1)"
    by (cases "df_sample1 P fl g0") (auto simp: booking_body_def)
  from assms(2) f obtain c g2 where c: "df_sample1 P cu g1 = Inr (c, g2)"
    by (cases "df_sample1 P cu g1") (auto simp: booking_body_def)
  have m: "f \<in> set fl" "c \<in> set cu"
    using assms(1) f c by (auto intro: df_sample1_mem)
  have ids: "booking.flight_id b = flight.flight_id f \<and>
        booking.customer_id b = customer.customer_id c \<and>
        advance_days b = fst (randint P 1 90 g2)"
    using assms(2) f c by (auto simp: booking_body_def Let_def case_prod_beta)
  have price: "price_paid b = spec_price P (base_price f) (fst (randint P 1 90 g2)) (is_business c)
       (fst (uniform P 1.0 1.4 (snd (randint P 1 90 g2))))
       (fst (normal P 1.0 0.1
          (if is_business c = 1 then snd (uniform P 1.0 1.4 (snd (randint P 1 90 g2)))
           else snd (randint P 1 90 g2))))"
    using assms(2) f c
    by (auto simp: booking_body_def Let_def case_prod_beta spec_price_def spec_band_def)
  show ?thesis using f c m ids price by auto
qed

text \<open>
Claim C1. With a generator that honours its documented ranges, every booking of a
  completed run references a flight and a customer of the tables, and for the flight and
  the customer it references (identifiers being distinct, one of each) its \<open>price_paid\<close>
  is \<open>spec_price\<close> of the flight's \<open>base_price\<close>, the booking's \<open>advance_days\<close>, the
  customer's \<open>is_business\<close>, the \<open>uniform(1.0, 1.4)\<close> draw and the \<open>normal(1.0, 0.1)\<close>
  draw. That is: the base price, multiplied by 1.3 below 7 days, by 0.85 above 60 days
  and left unchanged from 7 to 60 days (the two bands exclude each other); then
  multiplied by the uniform factor when \<open>is_business\<close> is 1; then multiplied by the noise
  factor; then floored at 100; then rounded to 2 decimals, in this order. The uniform
  factor lies from 1.0 to 1.4 and is drawn, after \<open>advance_days\<close>, only for a business
  customer; the noise factor is the next draw.

  The products are floating-point products (the double nearest to the exact product,
  with the literals 1.3 and 0.85 standing for their nearest doubles), so their order
  matters, and the rounding is numpy's: times 100, to the nearest integer with ties to
  even, divided by 100. The last three parts of the statement say so.
\<close>

theorem booking_price_steps:
  "rng_ok P \<Longrightarrow> uniform_ok P \<Longrightarrow> main P s0 = Inr t \<Longrightarrow> b \<in> set (bookings_df t) \<Longrightarrow>
     (\<exists>f \<in> set (flights_df t). \<exists>c \<in> set (customers_df t).
        flight.flight_id f = booking.flight_id b \<and>
        customer.customer_id c = booking.customer_id b) \<and>
     (\<forall>f \<in> set (flights_df t). \<forall>c \<in> set (customers_df t).
        flight.flight_id f = booking.flight_id b \<and>
        customer.customer_id c = booking.customer_id b \<longrightarrow>
        (\<exists>g2 g3 g4.
           advance_days b = fst (randint P 1 90 g2) \<and> g3 = snd (randint P 1 90 g2) \<and>
           g4 = (if is_business c = 1 then snd (uniform P 1.0 1.4 g3) else g3) \<and>
           price_paid b = spec_price P (base_price f) (advance_days b) (is_business c)
             (fst (uniform P 1.0 1.4 g3)) (fst (normal P 1.0 0.1 g4)) \<and>
           1.0 \<le> fst (uniform P 1.0 1.4 g3) \<and> fst (uniform P 1.0 1.4 g3) \<le> 1.4)) \<and>
     (\<forall>x d business factor noise.
        spec_price P x d business factor noise =
          np_round P (max (fmul P (if business = 1 then fmul P (spec_band P x d) factor
                                   else spec_band P x d) noise) 100) 2) \<and>
     (\<forall>x d. (d < 7 \<longrightarrow> spec_band P x d = fmul P x (dbl P 1.3)) \<and>
            (d > 60 \<longrightarrow> spec_band P x d = fmul P x (dbl P 0.85)) \<and>
            (7 \<le> d \<and> d \<le> 60 \<longrightarrow> spec_band P x d = x) \<and> \<not> (d < 7 \<and> d > 60)) \<and>
     (\<forall>x y. fmul P x y = dbl P (x * y)) \<and>
     (\<forall>x. np_round P x 2 = dbl P (of_int (round_half_even (dbl P (x * 100))) / 100)) \<and>
     (\<forall>y. \<bar>of_int (round_half_even y) - y\<bar> \<le> 1 / 2 \<and>
          (\<bar>of_int (round_half_even y) - y\<bar> = 1 / 2 \<longrightarrow> even (round_half_even y)))"
proof -
  assume ok: "rng_ok P" and uok: "uniform_ok P" and t: "main P s0 = Inr t"
    and b: "b \<in> set (bookings_df t)"
  from main_booking_rows [OF t b] obtain i g0 g6 where
    "booking_body P (flights_df t) (customers_df t) i g0 = Inr (b, g6)" by blast
  from booking_body_price_steps [OF ok this] obtain f c g2 g3 g4 where
    f: "f \<in> set (flights_df t)" "flight.flight_id f = booking.flight_id b"
    and c: "c \<in> set (customers_df t)" "customer.customer_id c = booking.customer_id b"
    and d: "advance_days b = fst (randint P 1 90 g2)" "g3 = snd (randint P 1 90 g2)"
      "g4 = (if is_business c = 1 then snd (uniform P 1.0 1.4 g3) else g3)"
    and p: "price_paid b = spec_price P (base_price f) (advance_days b) (is_business c)
             (fst (uniform P 1.0 1.4 g3)) (fst (normal P 1.0 0.1 g4))"
    by force
  have A: "\<exists>f \<in> set (flights_df t). \<exists>c \<in> set (customers_df t).
        flight.flight_id f = booking.flight_id b \<and>
        customer.customer_id c = booking.customer_id b"
    using f c by blast
  have B: "\<exists>g2 g3 g4.
           advance_days b = fst (randint P 1 90 g2) \<and> g3 = snd (randint P 1 90 g2) \<and>
           g4 = (if is_business c' = 1 then snd (uniform P 1.0 1.4 g3) else g3) \<and>
           price_paid b = spec_price P (base_price f') (advance_days b) (is_business c')
             (fst (uniform P 1.0 1.4 g3)) (fst (normal P 1.0 0.1 g4)) \<and>
           1.0 \<le> fst (uniform P 1.0 1.4 g3) \<and> fst (uniform P 1.0 1.4 g3) \<le> 1.4"
    if "f' \<in> set (flights_df t)" "c' \<in> set (customers_df t)"
      "flight.flight_id f' = booking.flight_id b \<and> customer.customer_id c' = booking.customer_id b"
    for f' c'
  proof -
    have "f' = f"
      using same_id_same_flight [OF main_ids_distinct(1) [OF t] that(1) f(1)] that(3) f(2) by simp
    moreover have "c' = c"
      using same_id_same_customer [OF main_ids_distinct(2) [OF t] that(2) c(1)] that(3) c(2)
      by simp
    ultimately show ?thesis
      using d p uniform_factor_range [OF uok, of g3] by blast
  qed
  have C: "\<forall>x d business factor noise.
        spec_price P x d business factor noise =
          np_round P (max (fmul P (if business = 1 then fmul P (spec_band P x d) factor
                                   else spec_band P x d) noise) 100) 2"
    using spec_price_unfolded by blast
  have D: "\<forall>x d. (d < 7 \<longrightarrow> spec_band P x d = fmul P x (dbl P 1.3)) \<and>
            (d > 60 \<longrightarrow> spec_band P x d = fmul P x (dbl P 0.85)) \<and>
            (7 \<le> d \<and> d \<le> 60 \<longrightarrow> spec_band P x d = x) \<and> \<not> (d < 7 \<and> d > 60)"
    using spec_band_cases by blast
  have E: "\<forall>x y. fmul P x y = dbl P (x * y)" by (simp add: fmul_def)
  have F: "\<forall>x. np_round P x 2 = dbl P (of_int (round_half_even (dbl P (x * 100))) / 100)"
    using np_round_2 by blast
  have G: "\<forall>y. \<bar>of_int (round_half_even y) - y\<bar> \<le> 1 / 2 \<and>
          (\<bar>of_int (round_half_even y) - y\<bar> = 1 / 2 \<longrightarrow> even (round_half_even y))"
    using round_half_even_nearest by blast
  have AB: "(\<exists>f \<in> set (flights_df t). \<exists>c \<in> set (customers_df t).
        flight.flight_id f = booking.flight_id b \<and>
        customer.customer_id c = booking.customer_id b) \<and>
     (\<forall>f \<in> set (flights_df t). \<forall>c \<in> set (customers_df t).
        flight.flight_id f = booking.flight_id b \<and>
        customer.customer_id c = booking.customer_id b \<longrightarrow>
        (\<exists>g2 g3 g4.
           advance_days b = fst (randint P 1 90 g2) \<and> g3 = snd (randint P 1 90 g2) \<and>
           g4 = (if is_business c = 1 then snd (uniform P 1.0 1.4 g3) else g3) \<and>
           price_paid b = spec_price P (base_price f) (advance_days b) (is_business c)
             (fst (uniform P 1.0 1.4 g3)) (fst (normal P 1.0 0.1 g4)) \<and>
           1.0 \<le> fst (uniform P 1.0 1.4 g3) \<and> fst (uniform P 1.0 1.4 g3) \<le> 1.4))"
    using A B by blast
  show ?thesis
    by (rule conjI [OF AB [THEN conjunct1]], rule conjI [OF AB [THEN conjunct2]],
        rule conjI [OF C], rule conjI [OF D], rule conjI [OF E], rule conjI [OF F], rule G)
qed

theorem booking_price_steps_witness:
  "\<exists>t. main (tape_platform (tape_of [])) (init 0 Map.empty) = Inr t \<and>
     rng_ok (tape_platform (tape_of [])) \<and> uniform_ok (tape_platform (tape_of [])) \<and>
     bookings_df t ! 0 \<in> set (bookings_df t) \<and>
     (\<exists>f \<in> set (flights_df t). \<exists>c \<in> set (customers_df t). \<exists>factor noise.
        flight.flight_id f = booking.flight_id (bookings_df t ! 0) \<and>
        customer.customer_id c = booking.customer_id (bookings_df t ! 0) \<and>
        1 \<le> factor \<and> factor \<le> 1.4 \<and>
        price_paid (bookings_df t ! 0) =
          spec_price (tape_platform (tape_of [])) (base_price f)
            (advance_days (bookings_df t ! 0)) (is_business c) factor noise)"
proof -
  let ?P = "tape_platform (tape_of [])"
  obtain t where t: "main ?P (init 0 Map.empty) = Inr t" using main_total by blast
  note ok = rng_ok_tape [of "tape_of []"]
  note uok = uniform_ok_tape [of "tape_of []"]
  note m = main_first_rows(3) [OF t]
  note W = booking_price_steps [OF ok uok t m]
  from W [THEN conjunct1] obtain f c where
    fc: "f \<in> set (flights_df t)" "c \<in> set (customers_df t)"
      "flight.flight_id f = booking.flight_id (bookings_df t ! 0)"
      "customer.customer_id c = booking.customer_id (bookings_df t ! 0)" by blast
  from W [THEN conjunct2, THEN conjunct1, rule_format, OF fc(1,2)] fc(3,4)
  obtain factor noise where
    "1 \<le> factor" "factor \<le> 1.4"
    "price_paid (bookings_df t ! 0) =
       spec_price ?P (base_price f) (advance_days (bookings_df t ! 0)) (is_business c) factor noise"
    by auto
  then show ?thesis using t ok uok m fc by blast
qed

end
